theory Spec2Isabelle
  imports Complex_Main "HOL-Library.Sublist"
begin

section \<open>Python values shared by all the scripts\<close>

text \<open>
  Exceptions are values. Subclasses are folded into the class the handlers of the
  sources test for: \<open>json.JSONDecodeError\<close> and pydantic's \<open>ValidationError\<close> are
  \<open>ValueError\<close>s, \<open>UnboundLocalError\<close> is a \<open>NameError\<close> and not a \<open>ValueError\<close>,
  \<open>APIError\<close> stands for whatever the OpenAI client raises (connection, authentication,
  rate limit), \<open>RetryError\<close> is tenacity's.
\<close>

datatype exn =
    ValueError string
  | TypeError string
  | KeyError string
  | AttributeError string
  | UnboundLocalError string
  | RuntimeError string
  | APIError string
  | RetryError string

fun str_exn :: "exn \<Rightarrow> string" where
  "str_exn (ValueError m) = m"
| "str_exn (TypeError m) = m"
| "str_exn (KeyError k) = [CHR 0x27] @ k @ [CHR 0x27]"
| "str_exn (AttributeError m) = m"
| "str_exn (UnboundLocalError v) =
     ''cannot access local variable '' @ [CHR 0x27] @ v @ [CHR 0x27] @
     '' where it is not associated with a value''"
| "str_exn (RuntimeError m) = m"
| "str_exn (APIError m) = m"
| "str_exn (RetryError m) = m"

fun is_ValueError :: "exn \<Rightarrow> bool" where
  "is_ValueError (ValueError m) = True"
| "is_ValueError e = False"

text \<open>
  A Python \<open>float\<close>, as far as comparisons see it: a finite value (every finite double is
  a rational), the two infinities, or NaN. Every comparison with NaN is false.
\<close>

datatype pyfloat = Fin rat | PInf | NInf | NaN

fun pf_le :: "pyfloat \<Rightarrow> pyfloat \<Rightarrow> bool" where
  "pf_le NaN y = False"
| "pf_le x NaN = False"
| "pf_le NInf y = True"
| "pf_le x PInf = True"
| "pf_le (Fin a) (Fin b) = (a \<le> b)"
| "pf_le x y = False"

fun pf_lt :: "pyfloat \<Rightarrow> pyfloat \<Rightarrow> bool" where
  "pf_lt NaN y = False"
| "pf_lt x NaN = False"
| "pf_lt PInf y = False"
| "pf_lt x NInf = False"
| "pf_lt (Fin a) (Fin b) = (a < b)"
| "pf_lt x y = True"

definition of_py_int :: "int \<Rightarrow> pyfloat" where
  "of_py_int i = Fin (of_int i)"

function str_nat :: "nat \<Rightarrow> string" where
  "str_nat n =
     (if n < 10 then [''0123456789'' ! n]
      else str_nat (n div 10) @ [''0123456789'' ! (n mod 10)])"
  by pat_completeness auto
termination
  by (relation "measure (\<lambda>n. n)") auto

definition str_int :: "int \<Rightarrow> string" where
  "str_int i = (if i < 0 then ''-'' @ str_nat (nat (- i)) else str_nat (nat i))"

section \<open>The claims workflow: \<open>state.py\<close> and \<open>gates.py\<close>\<close>

record ClaimInformation =
  claim_id :: string
  policy_number :: string
  claimant_name :: string
  incident_date :: string
  incident_type :: string
  damage_description :: string
  location :: string

datatype severity_level = Low | Medium | High

fun str_severity :: "severity_level \<Rightarrow> string" where
  "str_severity Low = ''Low''"
| "str_severity Medium = ''Medium''"
| "str_severity High = ''High''"

record SeverityAssessment =
  severity :: severity_level
  est_cost :: pyfloat
  reasoning :: string

datatype queue_name = Q_auto | Q_manual | Q_specialist
datatype priority_level = P_low | P_medium | P_high

record ClaimRouting =
  queue :: queue_name
  priority :: priority_level
  routing_reasoning :: string

text \<open>
  \<open>json.loads\<close>, the pydantic constructors, \<open>model_dump_json\<close>, \<open>json.dumps\<close> and the
  printing of a float are library code: they are parameters of the model. \<open>load_claim s\<close>
  stands for \<open>ClaimInformation(**json.loads(s))\<close>, and so on.
\<close>

record codec =
  load_claim :: "string \<Rightarrow> exn + ClaimInformation"
  load_severity :: "string \<Rightarrow> exn + SeverityAssessment"
  load_routing :: "string \<Rightarrow> exn + ClaimRouting"
  dump_claim :: "ClaimInformation \<Rightarrow> string"
  dump_routing_input :: "ClaimInformation \<Rightarrow> SeverityAssessment \<Rightarrow> string"
  str_float :: "pyfloat \<Rightarrow> string"

definition gate1_validate_claims_info :: "codec \<Rightarrow> string \<Rightarrow> exn + ClaimInformation" where
  "gate1_validate_claims_info cd claim_info_json =
     (case load_claim cd claim_info_json of
        Inr c \<Rightarrow> Inr c
      | Inl e \<Rightarrow> Inl (ValueError (''Invalid claim information format: '' @ str_exn e)))"

fun cost_ranges :: "severity_level \<Rightarrow> int \<times> int" where
  "cost_ranges Low = (100, 1000)"
| "cost_ranges Medium = (1000, 5000)"
| "cost_ranges High = (5000, 50000)"

definition cost_message :: "codec \<Rightarrow> pyfloat \<Rightarrow> severity_level \<Rightarrow> int \<Rightarrow> int \<Rightarrow> string" where
  "cost_message cd cost sev min_cost max_cost =
     ''Cost $'' @ str_float cd cost @ '' out of range for '' @ str_severity sev @
     '' severity ($'' @ str_int min_cost @ ''-$'' @ str_int max_cost @ '')''"

text \<open>The body of the \<open>try\<close> of \<open>gate2_cost_range_ok\<close>, before the handlers.\<close>

definition gate2_body :: "codec \<Rightarrow> string \<Rightarrow> exn + SeverityAssessment" where
  "gate2_body cd severity_json =
     (case load_severity cd severity_json of
        Inl e \<Rightarrow> Inl e
      | Inr validated \<Rightarrow>
          (let cost = est_cost validated;
               sev = severity validated;
               (min_cost, max_cost) = cost_ranges sev
           in if sev = Low then
                (if \<not> (pf_le (of_py_int min_cost) cost \<and> pf_le cost (of_py_int max_cost))
                 then Inl (ValueError (cost_message cd cost sev min_cost max_cost))
                 else Inr validated)
              else
                (if \<not> (pf_lt (of_py_int min_cost) cost \<and> pf_le cost (of_py_int max_cost))
                 then Inl (ValueError (cost_message cd cost sev min_cost max_cost))
                 else Inr validated)))"

definition gate2_cost_range_ok :: "codec \<Rightarrow> string \<Rightarrow> exn + SeverityAssessment" where
  "gate2_cost_range_ok cd severity_json =
     (case gate2_body cd severity_json of
        Inr validated \<Rightarrow> Inr validated
      | Inl e \<Rightarrow>
          (if is_ValueError e then Inl e
           else Inl (ValueError (''Invalid severity assessment format: '' @ str_exn e))))"

definition gate3_validate_routing :: "codec \<Rightarrow> string \<Rightarrow> exn + ClaimRouting" where
  "gate3_validate_routing cd routing_json =
     (case load_routing cd routing_json of
        Inr r \<Rightarrow> Inr r
      | Inl e \<Rightarrow> Inl (ValueError (''Invalid claim routing format: '' @ str_exn e)))"

text \<open>
  The interval of a severity level as the specification words it: Low is the closed
  interval from 100 to 1000, Medium and High are open below and closed above.
\<close>

fun in_severity_interval :: "severity_level \<Rightarrow> pyfloat \<Rightarrow> bool" where
  "in_severity_interval Low c = (pf_le (Fin 100) c \<and> pf_le c (Fin 1000))"
| "in_severity_interval Medium c = (pf_lt (Fin 1000) c \<and> pf_le c (Fin 5000))"
| "in_severity_interval High c = (pf_lt (Fin 5000) c \<and> pf_le c (Fin 50000))"

subsection \<open>The same gate in \<open>7-chaining_prompts/chaining-prompting.py\<close>\<close>

text \<open>
  There \<open>SeverityAssessment\<close> has two fields, and the first handler reads
  \<open>except ValueError as ve: raise ve from e\<close>. The name \<open>e\<close> is a local of the function
  (the second handler binds it) and it is unbound when the first handler runs, so the
  \<open>raise\<close> statement itself fails with \<open>UnboundLocalError\<close>.
\<close>

record SeverityAssessment_cp =
  severity_cp :: severity_level
  est_cost_cp :: pyfloat

definition gate2_body_cp ::
  "(string \<Rightarrow> exn + SeverityAssessment_cp) \<Rightarrow> string \<Rightarrow> exn + SeverityAssessment_cp" where
  "gate2_body_cp load severity_json =
     (case load severity_json of
        Inl e \<Rightarrow> Inl e
      | Inr validated_severity \<Rightarrow>
          (if severity_cp validated_severity = Low \<and>
              \<not> (pf_le (of_py_int 100) (est_cost_cp validated_severity) \<and>
                 pf_le (est_cost_cp validated_severity) (of_py_int 1000))
           then Inl (ValueError ''Estimated cost not in range for Low severity'')
           else if severity_cp validated_severity = Medium \<and>
              \<not> (pf_lt (of_py_int 1000) (est_cost_cp validated_severity) \<and>
                 pf_le (est_cost_cp validated_severity) (of_py_int 5000))
           then Inl (ValueError ''Estimated cost not in range for Medium severity'')
           else if severity_cp validated_severity = High \<and>
              \<not> (pf_lt (of_py_int 5000) (est_cost_cp validated_severity) \<and>
                 pf_le (est_cost_cp validated_severity) (of_py_int 50000))
           then Inl (ValueError ''Estimated cost not in range for High severity'')
           else Inr validated_severity))"

definition gate2_cost_range_ok_cp ::
  "(string \<Rightarrow> exn + SeverityAssessment_cp) \<Rightarrow> string \<Rightarrow> exn + SeverityAssessment_cp" where
  "gate2_cost_range_ok_cp load severity_json =
     (case gate2_body_cp load severity_json of
        Inr validated_severity \<Rightarrow> Inr validated_severity
      | Inl ve \<Rightarrow>
          (if is_ValueError ve then Inl (UnboundLocalError ''e'')
           else Inl (ValueError (''Invalid severity assessment format: '' @ str_exn ve))))"

section \<open>The Completion Service\<close>

text \<open>
  A request to \<open>client.chat.completions.create\<close>: the model, the role-tagged messages
  and the generation parameters. The service is not part of the program: it is an
  oracle that answers the \<open>n\<close>-th call of a run with a text or with an exception, so
  that two calls with the same request may get different answers. A run threads the
  transcript of the calls it has made, each with its outcome.
\<close>

record request =
  req_model :: string
  messages :: "(string \<times> string) list"
  temperature :: "rat option"
  max_tokens :: "nat option"

type_synonym client = "nat \<Rightarrow> request \<Rightarrow> exn + string"
type_synonym transcript = "(request \<times> (exn + string)) list"

definition chat_create :: "client \<Rightarrow> transcript \<Rightarrow> request \<Rightarrow> (exn + string) \<times> transcript" where
  "chat_create cl w req = (let r = cl (length w) req in (r, w @ [(req, r)]))"

section \<open>The claims workflow: \<open>utils.py\<close> and \<open>agents/claims_processor.py\<close>\<close>

text \<open>
  The module constants: the prompts of \<open>prompts.py\<close> and the default model, which
  \<open>utils.py\<close> reads from the environment.
\<close>

record env =
  codec_of :: codec
  client_of :: client
  DEFAULT_MODEL :: string
  INFO_EXTRACTION_PROMPT :: string
  SEVERITY_ASSESSMENT_PROMPT :: string
  QUEUE_ROUTING_PROMPT :: string

text \<open>
  \<open>get_completion(messages=..., model=...)\<close>: the other parameters keep their defaults
  (no system or user prompt, temperature 0, 500 tokens).
\<close>

definition get_completion ::
  "env \<Rightarrow> transcript \<Rightarrow> (string \<times> string) list \<Rightarrow> string \<Rightarrow> (exn + string) \<times> transcript" where
  "get_completion ev w msgs mdl =
     (if msgs = [] then
        (Inl (ValueError ''Must provide messages, system_prompt, or user_prompt''), w)
      else
        (case chat_create (client_of ev) w
                \<lparr>req_model = (if mdl = [] then DEFAULT_MODEL ev else mdl), messages = msgs,
                 temperature = Some 0, max_tokens = Some 500\<rparr> of
           (Inl e, w') \<Rightarrow> (Inl (RuntimeError (''OpenAI API error: '' @ str_exn e)), w')
         | (Inr content, w') \<Rightarrow> (Inr content, w')))"

text \<open>
  \<open>ClaimState\<close> is a \<open>TypedDict\<close> with \<open>total=False\<close>: every key may be absent
  (\<open>None\<close>). A node returns a dictionary with the keys it sets, of the same shape, and
  the graph library overwrites these keys in the state.
\<close>

record ClaimState =
  fnol :: "string option"
  model :: "string option"
  claim_info :: "ClaimInformation option"
  severity_key :: "SeverityAssessment option"
  routing :: "ClaimRouting option"
  errors :: "string list option"
  status :: "string option"

definition no_update :: ClaimState where
  "no_update = \<lparr>fnol = None, model = None, claim_info = None, severity_key = None,
                routing = None, errors = None, status = None\<rparr>"

definition overwrite :: "'a option \<Rightarrow> 'a option \<Rightarrow> 'a option" where
  "overwrite old new = (case new of None \<Rightarrow> old | Some v \<Rightarrow> Some v)"

definition merge_update :: "ClaimState \<Rightarrow> ClaimState \<Rightarrow> ClaimState" where
  "merge_update st d =
     \<lparr>fnol = overwrite (fnol st) (fnol d), model = overwrite (model st) (model d),
      claim_info = overwrite (claim_info st) (claim_info d),
      severity_key = overwrite (severity_key st) (severity_key d),
      routing = overwrite (routing st) (routing d),
      errors = overwrite (errors st) (errors d),
      status = overwrite (status st) (status d)\<rparr>"

text \<open>\<open>state.get("errors", [])\<close>\<close>

definition get_errors :: "ClaimState \<Rightarrow> string list" where
  "get_errors st = (case errors st of None \<Rightarrow> [] | Some es \<Rightarrow> es)"

text \<open>The dictionary every \<open>except Exception as e\<close> branch of a node returns.\<close>

definition failed_update :: "ClaimState \<Rightarrow> string \<Rightarrow> exn \<Rightarrow> ClaimState" where
  "failed_update st label e =
     no_update\<lparr>errors := Some (get_errors st @ [label @ str_exn e]), status := Some ''failed''\<rparr>"

definition extract_claim_node :: "env \<Rightarrow> ClaimState \<Rightarrow> transcript \<Rightarrow> ClaimState \<times> transcript" where
  "extract_claim_node ev st w =
     (case fnol st of
        None \<Rightarrow> (failed_update st ''Extraction error: '' (KeyError ''fnol''), w)
      | Some text \<Rightarrow>
     (case model st of
        None \<Rightarrow> (failed_update st ''Extraction error: '' (KeyError ''model''), w)
      | Some mdl \<Rightarrow>
     (case get_completion ev w
             [(''system'', INFO_EXTRACTION_PROMPT ev), (''user'', text)] mdl of
        (Inl e, w') \<Rightarrow> (failed_update st ''Extraction error: '' e, w')
      | (Inr response, w') \<Rightarrow>
     (case gate1_validate_claims_info (codec_of ev) response of
        Inl e \<Rightarrow> (failed_update st ''Extraction error: '' e, w')
      | Inr ci \<Rightarrow>
          (no_update\<lparr>claim_info := Some ci, status := Some ''claim_extracted''\<rparr>, w')))))"

text \<open>
  The two later nodes read \<open>state['claim_info']\<close> for a log line before their
  \<open>try\<close>: a missing key there leaves the node as a \<open>KeyError\<close>.
\<close>

definition assess_severity_node ::
  "env \<Rightarrow> ClaimState \<Rightarrow> transcript \<Rightarrow> (exn + ClaimState) \<times> transcript" where
  "assess_severity_node ev st w =
     (case claim_info st of
        None \<Rightarrow> (Inl (KeyError ''claim_info''), w)
      | Some ci \<Rightarrow>
     (case model st of
        None \<Rightarrow> (Inr (failed_update st ''Severity error: '' (KeyError ''model'')), w)
      | Some mdl \<Rightarrow>
     (case get_completion ev w
             [(''system'', SEVERITY_ASSESSMENT_PROMPT ev),
              (''user'', dump_claim (codec_of ev) ci)] mdl of
        (Inl e, w') \<Rightarrow> (Inr (failed_update st ''Severity error: '' e), w')
      | (Inr response, w') \<Rightarrow>
     (case gate2_cost_range_ok (codec_of ev) response of
        Inl e \<Rightarrow> (Inr (failed_update st ''Severity error: '' e), w')
      | Inr sev \<Rightarrow>
          (Inr (no_update\<lparr>severity_key := Some sev, status := Some ''severity_assessed''\<rparr>),
           w')))))"

definition route_claim_node ::
  "env \<Rightarrow> ClaimState \<Rightarrow> transcript \<Rightarrow> (exn + ClaimState) \<times> transcript" where
  "route_claim_node ev st w =
     (case claim_info st of
        None \<Rightarrow> (Inl (KeyError ''claim_info''), w)
      | Some ci \<Rightarrow>
     (case severity_key st of
        None \<Rightarrow> (Inr (failed_update st ''Routing error: '' (KeyError ''severity'')), w)
      | Some sev \<Rightarrow>
     (case model st of
        None \<Rightarrow> (Inr (failed_update st ''Routing error: '' (KeyError ''model'')), w)
      | Some mdl \<Rightarrow>
     (case get_completion ev w
             [(''system'', QUEUE_ROUTING_PROMPT ev),
              (''user'', dump_routing_input (codec_of ev) ci sev)] mdl of
        (Inl e, w') \<Rightarrow> (Inr (failed_update st ''Routing error: '' e), w')
      | (Inr response, w') \<Rightarrow>
     (case gate3_validate_routing (codec_of ev) response of
        Inl e \<Rightarrow> (Inr (failed_update st ''Routing error: '' e), w')
      | Inr r \<Rightarrow>
          (Inr (no_update\<lparr>routing := Some r, status := Some ''completed''\<rparr>), w'))))))"

definition should_continue :: "ClaimState \<Rightarrow> exn + string" where
  "should_continue st =
     (case status st of
        None \<Rightarrow> Inl (KeyError ''status'')
      | Some s \<Rightarrow> if s = ''failed'' then Inr ''end'' else Inr ''continue'')"

subsection \<open>\<open>build_graph\<close>\<close>

text \<open>
  The graph has three nodes. \<open>START\<close> leads to \<open>extract_claim\<close>; after \<open>extract_claim\<close>
  and after \<open>assess_severity\<close> the conditional edge maps the answer of
  \<open>should_continue\<close> to the next node (\<open>continue\<close>) or to \<open>END\<close> (\<open>end\<close>);
  \<open>route_claim\<close> leads to \<open>END\<close>. \<open>None\<close> is \<open>END\<close>.
\<close>

datatype node = extract_claim | assess_severity | route_claim

fun run_node :: "env \<Rightarrow> node \<Rightarrow> ClaimState \<Rightarrow> transcript \<Rightarrow> (exn + ClaimState) \<times> transcript" where
  "run_node ev extract_claim st w =
     (case extract_claim_node ev st w of (d, w') \<Rightarrow> (Inr d, w'))"
| "run_node ev assess_severity st w = assess_severity_node ev st w"
| "run_node ev route_claim st w = route_claim_node ev st w"

definition conditional_edge :: "node \<Rightarrow> ClaimState \<Rightarrow> exn + node option" where
  "conditional_edge continue_to st =
     (case should_continue st of
        Inl e \<Rightarrow> Inl e
      | Inr answer \<Rightarrow>
          if answer = ''continue'' then Inr (Some continue_to)
          else if answer = ''end'' then Inr None
          else Inl (KeyError answer))"

fun next_node :: "node \<Rightarrow> ClaimState \<Rightarrow> exn + node option" where
  "next_node extract_claim st = conditional_edge assess_severity st"
| "next_node assess_severity st = conditional_edge route_claim st"
| "next_node route_claim st = Inr None"

text \<open>
  A run of the compiled graph from a node. Besides the outcome (the final state, or the
  exception that left the run) it records the steps it executed, in order: the node, the
  state before it, the dictionary the node returned and the state after the merge.
\<close>

record step =
  step_node :: node
  before :: ClaimState
  update :: ClaimState
  after :: ClaimState

fun node_rank :: "node \<Rightarrow> nat" where
  "node_rank extract_claim = 3"
| "node_rank assess_severity = 2"
| "node_rank route_claim = 1"

record run =
  outcome :: "exn + ClaimState"
  steps :: "step list"
  calls :: transcript

function run_from :: "env \<Rightarrow> node \<Rightarrow> ClaimState \<Rightarrow> transcript \<Rightarrow> run" where
  "run_from ev n st w =
     (case run_node ev n st w of
        (Inl e, w') \<Rightarrow> \<lparr>outcome = Inl e, steps = [], calls = w'\<rparr>
      | (Inr d, w') \<Rightarrow>
          (let st' = merge_update st d;
               this = \<lparr>step_node = n, before = st, update = d, after = st'\<rparr>
           in case next_node n st' of
                Inl e \<Rightarrow> \<lparr>outcome = Inl e, steps = [this], calls = w'\<rparr>
              | Inr None \<Rightarrow> \<lparr>outcome = Inr st', steps = [this], calls = w'\<rparr>
              | Inr (Some n') \<Rightarrow>
                  (let r = run_from ev n' st' w' in r\<lparr>steps := this # steps r\<rparr>)))"
  by pat_completeness auto
termination
proof (relation "measure (\<lambda>(ev, n, st, w). node_rank n)")
  show "wf (measure (\<lambda>(ev, n, st, w). node_rank n))" by simp
next
  fix ev :: env and n st w x a w' d st' this s opt n'
  assume "next_node n st' = Inr opt" and "opt = Some n'"
  then have "node_rank n' < node_rank n"
    by (cases n) (auto simp: conditional_edge_def split: sum.splits if_splits)
  then show "((ev, n', st', w'), ev, n, st, w) \<in> measure (\<lambda>(ev, n, st, w). node_rank n)"
    by simp
qed

text \<open>\<open>graph.invoke(input)\<close>: the run starts at the entry node.\<close>

definition graph_invoke :: "env \<Rightarrow> ClaimState \<Rightarrow> transcript \<Rightarrow> run" where
  "graph_invoke ev input w = run_from ev extract_claim input w"

definition declared_order :: "node list" where
  "declared_order = [extract_claim, assess_severity, route_claim]"






subsection \<open>Two concrete runs\<close>

definition sample_claim :: ClaimInformation where
  "sample_claim =
     \<lparr>claim_id = ''C003'', policy_number = ''P-1'', claimant_name = ''Michael Rodriguez'',
      incident_date = ''2024-01-01'', incident_type = ''collision'',
      damage_description = ''front of the truck'', location = ''intersection''\<rparr>"

definition sample_codec :: codec where
  "sample_codec =
     \<lparr>load_claim = (\<lambda>s. if s = ''claim'' then Inr sample_claim else Inl (ValueError ''bad json'')),
      load_severity = (\<lambda>s. if s = ''low 1000'' then
                              Inr \<lparr>severity = Low, est_cost = Fin 1000, reasoning = ''chip''\<rparr>
                            else if s = ''low 5000'' then
                              Inr \<lparr>severity = Low, est_cost = Fin 5000, reasoning = ''chip''\<rparr>
                            else Inl (ValueError ''bad json'')),
      load_routing = (\<lambda>s. if s = ''auto'' then
                             Inr \<lparr>queue = Q_auto, priority = P_low, routing_reasoning = ''small''\<rparr>
                           else Inl (ValueError ''bad json'')),
      dump_claim = (\<lambda>c. claim_id c),
      dump_routing_input = (\<lambda>c v. claim_id c @ '' '' @ str_severity (severity v)),
      str_float = (\<lambda>f. ''5000.0'')\<rparr>"

text \<open>
  A service whose answers pass the first gate and fail the second (a Low assessment of
  cost 5000), and one whose answers pass all three gates.
\<close>

definition env_bad_assessment :: env where
  "env_bad_assessment =
     \<lparr>codec_of = sample_codec,
      client_of = (\<lambda>n req. if n = 0 then Inr ''claim'' else Inr ''low 5000''),
      DEFAULT_MODEL = ''gpt-4.1-nano'', INFO_EXTRACTION_PROMPT = ''extract'',
      SEVERITY_ASSESSMENT_PROMPT = ''assess'', QUEUE_ROUTING_PROMPT = ''route''\<rparr>"

definition env_all_pass :: env where
  "env_all_pass =
     \<lparr>codec_of = sample_codec,
      client_of = (\<lambda>n req. if n = 0 then Inr ''claim'' else if n = 1 then Inr ''low 1000''
                             else Inr ''auto''),
      DEFAULT_MODEL = ''gpt-4.1-nano'', INFO_EXTRACTION_PROMPT = ''extract'',
      SEVERITY_ASSESSMENT_PROMPT = ''assess'', QUEUE_ROUTING_PROMPT = ''route''\<rparr>"

definition sample_input :: ClaimState where
  "sample_input = no_update\<lparr>fnol := Some ''Claim ID: C003'', model := Some ''gpt-4o-mini''\<rparr>"

section \<open>The retrying extraction step: \<open>7-chaining_prompts/chaining-prompting_langgraph.py\<close>\<close>

record ClaimInformation_lg =
  claim_id_lg :: string
  name_lg :: string
  vehicle_lg :: string
  loss_desc_lg :: string
  damage_area_lg :: "string list"

record ClaimRouting_lg =
  routing_claim_id_lg :: string
  queue_lg :: string

text \<open>
  \<open>ClaimWorkflowState\<close> is a total \<open>TypedDict\<close>: \<open>process_claim\<close> sets every key. The
  model may be \<open>None\<close> (\<open>state.get("model")\<close>).
\<close>

record ClaimWorkflowState =
  fnol_lg :: string
  claim_info_lg :: "ClaimInformation_lg option"
  severity_lg :: "SeverityAssessment_cp option"
  routing_lg :: "ClaimRouting_lg option"
  errors_lg :: "string list"
  retry_count :: int
  status_lg :: string
  model_lg :: "string option"

text \<open>
  The environment of the script: the service, \<open>ClaimInformation(**json.loads(s))\<close> (library
  code), the value of the global \<open>MODEL\<close> and the extraction prompt.
\<close>

record env_lg =
  client_lg :: client
  load_claim_lg :: "string \<Rightarrow> exn + ClaimInformation_lg"
  MODEL_value :: string
  INFO_EXTRACTION_PROMPT_lg :: string

text \<open>\<open>model or MODEL.value\<close>: \<open>None\<close> and the empty string are false.\<close>

definition model_or :: "string option \<Rightarrow> string \<Rightarrow> string" where
  "model_or mdl dflt = (case mdl of None \<Rightarrow> dflt | Some m \<Rightarrow> if m = [] then dflt else m)"

definition get_completion_lg ::
  "env_lg \<Rightarrow> transcript \<Rightarrow> (string \<times> string) list \<Rightarrow> string option \<Rightarrow>
   (exn + string) \<times> transcript" where
  "get_completion_lg ev w msgs mdl =
     (if msgs = [] then (Inl (ValueError ''Must provide messages or prompts''), w)
      else
        (case chat_create (client_lg ev) w
                \<lparr>req_model = model_or mdl (MODEL_value ev), messages = msgs,
                 temperature = Some 0, max_tokens = Some 300\<rparr> of
           (Inl e, w') \<Rightarrow> (Inl (RuntimeError (''API error: '' @ str_exn e)), w')
         | (Inr content, w') \<Rightarrow> (Inr content, w')))"

definition gate1_validate_claims_info_lg :: "env_lg \<Rightarrow> string \<Rightarrow> exn + ClaimInformation_lg" where
  "gate1_validate_claims_info_lg ev claim_info_text =
     (case load_claim_lg ev claim_info_text of
        Inr c \<Rightarrow> Inr c
      | Inl e \<Rightarrow> Inl (ValueError (''Invalid claim format: '' @ str_exn e)))"

text \<open>The body of the \<open>try\<close> of \<open>extract_claim_node\<close>: one call and its gate.\<close>

definition extract_attempt ::
  "env_lg \<Rightarrow> ClaimWorkflowState \<Rightarrow> transcript \<Rightarrow> (exn + ClaimInformation_lg) \<times> transcript" where
  "extract_attempt ev st w =
     (case get_completion_lg ev w
             [(''system'', INFO_EXTRACTION_PROMPT_lg ev), (''user'', fnol_lg st)] (model_lg st) of
        (Inl e, w') \<Rightarrow> (Inl e, w')
      | (Inr response, w') \<Rightarrow> (gate1_validate_claims_info_lg ev response, w'))"

text \<open>
  The handler appends to \<open>state["errors"]\<close>, increments \<open>state["retry_count"]\<close> and, while
  the count is below 3, calls the node again on the same state.
\<close>

function extract_claim_node_lg ::
  "env_lg \<Rightarrow> ClaimWorkflowState \<Rightarrow> transcript \<Rightarrow> ClaimWorkflowState \<times> transcript" where
  "extract_claim_node_lg ev st w =
     (case extract_attempt ev st w of
        (Inr claim, w') \<Rightarrow>
          (st\<lparr>claim_info_lg := Some claim, status_lg := ''claim_extracted''\<rparr>, w')
      | (Inl e, w') \<Rightarrow>
          (let st' = st\<lparr>errors_lg := errors_lg st @ [''Extraction error: '' @ str_exn e],
                        retry_count := retry_count st + 1\<rparr>
           in if retry_count st' < 3 then extract_claim_node_lg ev st' w'
              else (st'\<lparr>status_lg := ''failed''\<rparr>, w')))"
  by pat_completeness auto
termination
  by (relation "measure (\<lambda>(ev, st, w). nat (3 - retry_count st))") auto

text \<open>The initial state of \<open>process_claim\<close>.\<close>

definition initial_state :: "string \<Rightarrow> string option \<Rightarrow> string \<Rightarrow> ClaimWorkflowState" where
  "initial_state text mdl dflt =
     \<lparr>fnol_lg = text, claim_info_lg = None, severity_lg = None, routing_lg = None,
      errors_lg = [], retry_count = 0, status_lg = ''processing'',
      model_lg = Some (model_or mdl dflt)\<rparr>"

text \<open>
  Two services for concrete runs: one that always answers with text the gate rejects,
  and one that is unreachable.
\<close>

definition env_not_json :: env_lg where
  "env_not_json =
     \<lparr>client_lg = (\<lambda>n req. Inr ''Sorry, I cannot help with that.''),
      load_claim_lg = (\<lambda>s. Inl (ValueError ''Expecting value: line 1 column 1 (char 0)'')),
      MODEL_value = ''gpt-4.1-mini'', INFO_EXTRACTION_PROMPT_lg = ''extract''\<rparr>"

definition env_unreachable :: env_lg where
  "env_unreachable =
     \<lparr>client_lg = (\<lambda>n req. Inl (APIError ''Connection error.'')),
      load_claim_lg = (\<lambda>s. Inl (ValueError ''Expecting value: line 1 column 1 (char 0)'')),
      MODEL_value = ''gpt-4.1-mini'', INFO_EXTRACTION_PROMPT_lg = ''extract''\<rparr>"

section \<open>Python string methods\<close>

text \<open>
  A character is a code point below 256. \<open>str.isspace\<close> holds there for the ASCII
  white space, the separators \<open>0x1C\<close> to \<open>0x1F\<close>, \<open>0x85\<close> and \<open>0xA0\<close>;
  \<open>str.lower\<close> moves the capital letters \<open>A\<close> to \<open>Z\<close> and \<open>0xC0\<close> to \<open>0xDE\<close>
  (but not the multiplication sign \<open>0xD7\<close>) up by 32.
\<close>

definition py_isspace :: "char \<Rightarrow> bool" where
  "py_isspace c =
     (let n = (of_char c :: nat)
      in (9 \<le> n \<and> n \<le> 13) \<or> (28 \<le> n \<and> n \<le> 32) \<or> n = 133 \<or> n = 160)"

definition py_lower_char :: "char \<Rightarrow> char" where
  "py_lower_char c =
     (let n = (of_char c :: nat)
      in if (65 \<le> n \<and> n \<le> 90) \<or> (192 \<le> n \<and> n \<le> 222 \<and> n \<noteq> 215)
         then char_of (n + 32) else c)"

definition lower :: "string \<Rightarrow> string" where
  "lower s = map py_lower_char s"

definition strip :: "string \<Rightarrow> string" where
  "strip s = rev (dropWhile py_isspace (rev (dropWhile py_isspace s)))"

definition startswith :: "string \<Rightarrow> string \<Rightarrow> bool" where
  "startswith s p = (take (length p) s = p)"

text \<open>\<open>if feedback:\<close> is false for \<open>None\<close> and for the empty string.\<close>

definition truthy :: "string option \<Rightarrow> bool" where
  "truthy fb = (case fb of None \<Rightarrow> False | Some f \<Rightarrow> f \<noteq> [])"

definition newline :: string where
  "newline = [CHR 0x0A]"

section \<open>The compliance loop: \<open>06-evaluation_optimizer/demo.py\<close>\<close>

definition MAX_RETRIES :: int where
  "MAX_RETRIES = 5"

definition user_prompt :: string where
  "user_prompt =
     ''Write a summary for potential investors explaining why decentralized finance (DeFi) will outperform '' @
     ''traditional banking in the next five years. Use strong language to inspire confidence and urgency. '' @
     ''Include examples of past DeFi gains and suggest what investors can expect from leading protocols in the near future.''"

text \<open>The request \<open>FinancialReportAgent.run(prompt, feedback)\<close> sends.\<close>

definition full_prompt :: "string \<Rightarrow> string option \<Rightarrow> string" where
  "full_prompt prompt feedback =
     (if truthy feedback
      then prompt @ newline @ newline @ ''Evaluator feedback: '' @ the feedback @ newline @
           ''Please revise accordingly.''
      else prompt)"

definition report_request :: "string \<Rightarrow> string option \<Rightarrow> request" where
  "report_request prompt feedback =
     \<lparr>req_model = ''gpt-4'',
      messages = [(''system'', ''You are a financial analyst writing a professional investment summary.''),
                  (''user'', full_prompt prompt feedback)],
      temperature = Some (1 / 2), max_tokens = None\<rparr>"

definition FinancialReportAgent_run ::
  "client \<Rightarrow> transcript \<Rightarrow> string \<Rightarrow> string option \<Rightarrow> (exn + string) \<times> transcript" where
  "FinancialReportAgent_run cl w prompt feedback = chat_create cl w (report_request prompt feedback)"

definition compliance_request :: "string \<Rightarrow> request" where
  "compliance_request report_text =
     \<lparr>req_model = ''gpt-4'',
      messages =
        [(''system'',
          ''You are a compliance officer reviewing investment summaries. '' @
          ''Reject anything with forward-looking statements, speculative claims, or language like 'expected', 'projected', 'will likely', etc.''),
         (''user'',
          ''Evaluate this investment summary for compliance:'' @ newline @ newline @ report_text @
          newline @ newline @ ''Respond with 'Approved' or provide feedback for revision.'')],
      temperature = Some 0, max_tokens = None\<rparr>"

definition ComplianceAgent_run ::
  "client \<Rightarrow> transcript \<Rightarrow> string \<Rightarrow> (exn + string) \<times> transcript" where
  "ComplianceAgent_run cl w report_text =
     (case chat_create cl w (compliance_request report_text) of
        (Inl e, w') \<Rightarrow> (Inl e, w')
      | (Inr content, w') \<Rightarrow> (Inr (strip content), w'))"

text \<open>
  \<open>main\<close> returns nothing: what it prints at the end is its outcome. After a \<open>break\<close> it
  has printed the approved summary; in the \<open>else\<close> of the \<open>for\<close> it prints that the
  retries are used up and the last version of the report. The first argument of the
  loop is the number of iterations \<open>range(MAX_RETRIES)\<close> has left.
\<close>

datatype main_outcome = Final_Approved string | Failed_after_max_retries string

fun main_loop ::
  "client \<Rightarrow> string \<Rightarrow> nat \<Rightarrow> transcript \<Rightarrow> string \<Rightarrow> string option \<Rightarrow>
   (exn + main_outcome) \<times> transcript" where
  "main_loop cl prompt 0 w report_text feedback = (Inr (Failed_after_max_retries report_text), w)"
| "main_loop cl prompt (Suc n) w report_text feedback =
     (case FinancialReportAgent_run cl w prompt feedback of
        (Inl e, w1) \<Rightarrow> (Inl e, w1)
      | (Inr report_text', w1) \<Rightarrow>
          (case ComplianceAgent_run cl w1 report_text' of
             (Inl e, w2) \<Rightarrow> (Inl e, w2)
           | (Inr evaluation, w2) \<Rightarrow>
               if startswith (lower evaluation) ''approved''
               then (Inr (Final_Approved report_text'), w2)
               else main_loop cl prompt n w2 report_text' (Some evaluation)))"

definition main_with :: "client \<Rightarrow> string \<Rightarrow> int \<Rightarrow> (exn + main_outcome) \<times> transcript" where
  "main_with cl prompt max_retries = main_loop cl prompt (nat max_retries) [] [] None"

definition main :: "client \<Rightarrow> (exn + main_outcome) \<times> transcript" where
  "main cl = main_with cl user_prompt MAX_RETRIES"

section \<open>The structured loop: \<open>06-evaluation_optimizer/demo_professional.py\<close>\<close>

record EvaluationResult =
  is_compliant :: bool
  feedback :: string
  risk_score :: int

text \<open>
  The asynchronous client answers \<open>chat.completions.create\<close> with a text and
  \<open>beta.chat.completions.parse\<close> with a parsed \<open>EvaluationResult\<close>, or with \<open>None\<close>
  when the model refuses. Both are oracles over the number of calls made so far, and
  the transcript tells the two kinds of call apart.
\<close>

record client_pro =
  create_pro :: "nat \<Rightarrow> request \<Rightarrow> exn + string"
  parse_pro :: "nat \<Rightarrow> request \<Rightarrow> exn + EvaluationResult option"

datatype call =
    Created request "exn + string"
  | Parsed request "exn + EvaluationResult option"

type_synonym transcript_pro = "call list"

text \<open>
  \<open>@retry(stop=stop_after_attempt(3), ...)\<close>: the decorated function is run again after
  an exception, and after the third failed attempt tenacity raises \<open>RetryError\<close>. The
  first argument counts the attempts left after this one. The waiting between attempts
  is not modelled.
\<close>

fun stop_after_attempt ::
  "nat \<Rightarrow> (transcript_pro \<Rightarrow> (exn + 'a) \<times> transcript_pro) \<Rightarrow> transcript_pro \<Rightarrow>
   (exn + 'a) \<times> transcript_pro" where
  "stop_after_attempt 0 f w =
     (case f w of
        (Inr v, w') \<Rightarrow> (Inr v, w')
      | (Inl e, w') \<Rightarrow> (Inl (RetryError (str_exn e)), w'))"
| "stop_after_attempt (Suc k) f w =
     (case f w of
        (Inr v, w') \<Rightarrow> (Inr v, w')
      | (Inl e, w') \<Rightarrow> stop_after_attempt k f w')"

definition final_prompt :: "string \<Rightarrow> string option \<Rightarrow> string" where
  "final_prompt base_prompt fb =
     (if truthy fb
      then base_prompt @ newline @ newline @ ''--- COMPLIANCE FEEDBACK ---'' @ newline @ the fb @
           newline @ newline @ ''INSTRUCTION: Rewrite the summary fixing the issues above.''
      else base_prompt)"

definition generate_request :: "string \<Rightarrow> string option \<Rightarrow> request" where
  "generate_request base_prompt fb =
     \<lparr>req_model = ''gpt-4.1'',
      messages = [(''system'', ''You are a financial analyst writing a professional investment summary.''),
                  (''user'', final_prompt base_prompt fb)],
      temperature = Some (7 / 10), max_tokens = None\<rparr>"

definition generate_once ::
  "client_pro \<Rightarrow> string \<Rightarrow> string option \<Rightarrow> transcript_pro \<Rightarrow> (exn + string) \<times> transcript_pro" where
  "generate_once cl base_prompt fb w =
     (let req = generate_request base_prompt fb; r = create_pro cl (length w) req
      in (r, w @ [Created req r]))"

definition generate ::
  "client_pro \<Rightarrow> string \<Rightarrow> string option \<Rightarrow> transcript_pro \<Rightarrow> (exn + string) \<times> transcript_pro" where
  "generate cl base_prompt fb w = stop_after_attempt 2 (generate_once cl base_prompt fb) w"

definition evaluate_request :: "string \<Rightarrow> request" where
  "evaluate_request report_text =
     \<lparr>req_model = ''gpt-4o'',
      messages =
        [(''system'',
          ''You are a strict AI Compliance Officer. '' @
          ''Reject speculative language, guarantees of future returns, or 'hype' keywords.''),
         (''user'', ''Evaluate this text for financial compliance:'' @ newline @ newline @ report_text)],
      temperature = Some 0, max_tokens = None\<rparr>"

definition evaluate_once ::
  "client_pro \<Rightarrow> string \<Rightarrow> transcript_pro \<Rightarrow> (exn + EvaluationResult option) \<times> transcript_pro" where
  "evaluate_once cl report_text w =
     (let req = evaluate_request report_text; r = parse_pro cl (length w) req
      in (r, w @ [Parsed req r]))"

definition evaluate ::
  "client_pro \<Rightarrow> string \<Rightarrow> transcript_pro \<Rightarrow> (exn + EvaluationResult option) \<times> transcript_pro" where
  "evaluate cl report_text w = stop_after_attempt 2 (evaluate_once cl report_text) w"

text \<open>
  \<open>run_optimization_loop\<close> returns the approved draft, or \<open>None\<close> when the retries are
  used up. Reading \<open>is_compliant\<close> of a \<open>None\<close> result raises \<open>AttributeError\<close>.
\<close>

fun optimization_loop ::
  "client_pro \<Rightarrow> string \<Rightarrow> nat \<Rightarrow> transcript_pro \<Rightarrow> string option \<Rightarrow>
   (exn + string option) \<times> transcript_pro" where
  "optimization_loop cl prompt 0 w fb = (Inr None, w)"
| "optimization_loop cl prompt (Suc n) w fb =
     (case generate cl prompt fb w of
        (Inl e, w1) \<Rightarrow> (Inl e, w1)
      | (Inr draft_text, w1) \<Rightarrow>
          (case evaluate cl draft_text w1 of
             (Inl e, w2) \<Rightarrow> (Inl e, w2)
           | (Inr None, w2) \<Rightarrow>
               (Inl (AttributeError
                  ([CHR 0x27] @ ''NoneType'' @ [CHR 0x27] @ '' object has no attribute '' @
                   [CHR 0x27] @ ''is_compliant'' @ [CHR 0x27])), w2)
           | (Inr (Some eval_result), w2) \<Rightarrow>
               if is_compliant eval_result then (Inr (Some draft_text), w2)
               else optimization_loop cl prompt n w2 (Some (feedback eval_result))))"

definition run_optimization_loop ::
  "client_pro \<Rightarrow> string \<Rightarrow> int \<Rightarrow> (exn + string option) \<times> transcript_pro" where
  "run_optimization_loop cl prompt max_retries = optimization_loop cl prompt (nat max_retries) [] None"

text \<open>The default of the parameter \<open>max_retries\<close>.\<close>

definition max_retries_default :: int where
  "max_retries_default = 6"

section \<open>\<open>EvaluationAgent.evaluate\<close>: \<open>phase_1/workflow_agents/base_agents.py\<close>\<close>

text \<open>
  The worker is any object with a \<open>respond\<close> method: an oracle over the number of times
  it has been asked. The calls of \<open>evaluate\<close> to its own client are in the transcript.
\<close>

record EvaluationAgent =
  openai_api_key :: string
  persona :: string
  evaluation_criteria :: string
  worker_agent :: "nat \<Rightarrow> string \<Rightarrow> exn + string"
  max_interactions :: int

record evaluate_result =
  final_response :: string
  evaluation :: string
  iterations :: int

definition eval_prompt :: "EvaluationAgent \<Rightarrow> string \<Rightarrow> string" where
  "eval_prompt agent response_from_worker =
     ''Think step-by-step: Compare each part of the following answer against the criteria.'' @
     newline @ newline @
     ''Answer: '' @ response_from_worker @ newline @ newline @
     ''Criteria: '' @ evaluation_criteria agent @ newline @ newline @
     ''Check if ALL criteria are met. Identify specific issues if any.'' @ newline @
     ''Respond with 'Yes' or 'No' at the start, followed by the reason why it does or doesn't meet the criteria.''"

definition instruction_prompt :: "string \<Rightarrow> string" where
  "instruction_prompt evaluation_text =
     ''Identify the problems in the evaluation below, think about how to fix them, '' @
     ''and provide concrete, actionable steps to correct the issues.'' @ newline @ newline @
     ''Evaluation: '' @ evaluation_text"

definition refinement_prompt :: "string \<Rightarrow> string \<Rightarrow> string \<Rightarrow> string" where
  "refinement_prompt initial_prompt response_from_worker instructions =
     ''The original prompt was: '' @ initial_prompt @ newline @
     ''The response to that prompt was: '' @ response_from_worker @ newline @
     ''It has been evaluated as incorrect.'' @ newline @
     ''Make only these corrections, do not alter content validity: '' @ instructions"

definition persona_request :: "EvaluationAgent \<Rightarrow> string \<Rightarrow> request" where
  "persona_request agent content =
     \<lparr>req_model = ''gpt-3.5-turbo'',
      messages = [(''system'', persona agent), (''user'', content)],
      temperature = Some 0, max_tokens = None\<rparr>"

text \<open>
  The loop over \<open>range(self.max_interactions)\<close>: the iterations left, the index \<open>i\<close>, the
  prompt for the worker and the last bound values of \<open>response_from_worker\<close> and
  \<open>evaluation\<close> (\<open>None\<close> before the first iteration, when the two locals are unbound).
\<close>

fun evaluate_loop ::
  "client \<Rightarrow> EvaluationAgent \<Rightarrow> string \<Rightarrow> nat \<Rightarrow> nat \<Rightarrow> transcript \<Rightarrow> string \<Rightarrow>
   (string \<times> string) option \<Rightarrow> (exn + evaluate_result) \<times> transcript" where
  "evaluate_loop cl agent initial_prompt 0 i w prompt_to_evaluate bound =
     (case bound of
        None \<Rightarrow> (Inl (UnboundLocalError ''response_from_worker''), w)
      | Some (response_from_worker, evaluation_text) \<Rightarrow>
          (Inr \<lparr>final_response = response_from_worker, evaluation = evaluation_text,
                iterations = max_interactions agent\<rparr>, w))"
| "evaluate_loop cl agent initial_prompt (Suc n) i w prompt_to_evaluate bound =
     (case worker_agent agent i prompt_to_evaluate of
        Inl e \<Rightarrow> (Inl e, w)
      | Inr response_from_worker \<Rightarrow>
     (case chat_create cl w (persona_request agent (eval_prompt agent response_from_worker)) of
        (Inl e, w1) \<Rightarrow> (Inl e, w1)
      | (Inr content, w1) \<Rightarrow>
          (let evaluation_text = strip content
           in if startswith (lower evaluation_text) ''yes''
              then (Inr \<lparr>final_response = response_from_worker, evaluation = evaluation_text,
                         iterations = int i + 1\<rparr>, w1)
              else
                (case chat_create cl w1
                        (persona_request agent (instruction_prompt evaluation_text)) of
                   (Inl e, w2) \<Rightarrow> (Inl e, w2)
                 | (Inr content2, w2) \<Rightarrow>
                     evaluate_loop cl agent initial_prompt n (Suc i) w2
                       (refinement_prompt initial_prompt response_from_worker (strip content2))
                       (Some (response_from_worker, evaluation_text))))))"

definition EvaluationAgent_evaluate ::
  "client \<Rightarrow> EvaluationAgent \<Rightarrow> string \<Rightarrow> (exn + evaluate_result) \<times> transcript" where
  "EvaluationAgent_evaluate cl agent initial_prompt =
     evaluate_loop cl agent initial_prompt (nat (max_interactions agent)) 0 [] initial_prompt None"

section \<open>Scripted services and the words of the specification about the loops\<close>

text \<open>A service that gives the answers of a list, one per call.\<close>

definition scripted :: "(exn + 'a) list \<Rightarrow> nat \<Rightarrow> request \<Rightarrow> exn + 'a" where
  "scripted answers n req =
     (if n < length answers then answers ! n else Inl (APIError ''no answer left''))"

text \<open>
  ``Each cycle's instruction is the original request plus the most recent feedback
  only'': walking the transcript of the compliance loop two calls at a time, every
  request to the generator is the one built from the original prompt and the
  evaluation that precedes it (none for the first).
\<close>

fun latest_feedback_only :: "string \<Rightarrow> string option \<Rightarrow> transcript \<Rightarrow> bool" where
  "latest_feedback_only prompt fb [] = True"
| "latest_feedback_only prompt fb [(g, r)] = (g = report_request prompt fb)"
| "latest_feedback_only prompt fb ((g, r) # (e, Inl x) # rest) =
     (g = report_request prompt fb \<and> rest = [])"
| "latest_feedback_only prompt fb ((g, r) # (e, Inr content) # rest) =
     (g = report_request prompt fb \<and> latest_feedback_only prompt (Some (strip content)) rest)"

text \<open>
  The same for the structured loop, where a retried call repeats its request: every
  request to the generator is built from the original prompt and the feedback of the
  latest parsed verdict.
\<close>

fun latest_feedback_only_pro :: "string \<Rightarrow> string option \<Rightarrow> transcript_pro \<Rightarrow> bool" where
  "latest_feedback_only_pro prompt fb [] = True"
| "latest_feedback_only_pro prompt fb (Created req r # rest) =
     (req = generate_request prompt fb \<and> latest_feedback_only_pro prompt fb rest)"
| "latest_feedback_only_pro prompt fb (Parsed req (Inr (Some v)) # rest) =
     latest_feedback_only_pro prompt (Some (feedback v)) rest"
| "latest_feedback_only_pro prompt fb (Parsed req r # rest) =
     latest_feedback_only_pro prompt fb rest"

text \<open>
  What the specification assumes of the evaluator, said of the service: the call with
  number \<open>i\<close> answers, or answers with a rejection, or with an approval, whatever the
  request. In the compliance loop the calls with an even number are the generator's and
  those with an odd number the evaluator's.
\<close>

definition answers_at :: "client \<Rightarrow> nat \<Rightarrow> bool" where
  "answers_at cl i = (\<forall>req. \<exists>s. cl i req = Inr s)"

definition rejects_at :: "client \<Rightarrow> nat \<Rightarrow> bool" where
  "rejects_at cl i = (\<forall>req. \<exists>s. cl i req = Inr s \<and> \<not> startswith (lower (strip s)) ''approved'')"

definition approves_at :: "client \<Rightarrow> nat \<Rightarrow> bool" where
  "approves_at cl i = (\<forall>req. \<exists>s. cl i req = Inr s \<and> startswith (lower (strip s)) ''approved'')"

definition always_rejects :: "client \<Rightarrow> nat \<Rightarrow> bool" where
  "always_rejects cl n = (\<forall>i<n. answers_at cl (2 * i) \<and> rejects_at cl (2 * i + 1))"

definition first_approves_on :: "client \<Rightarrow> nat \<Rightarrow> bool" where
  "first_approves_on cl k =
     (0 < k \<and> always_rejects cl (k - 1) \<and> answers_at cl (2 * (k - 1)) \<and>
      approves_at cl (2 * (k - 1) + 1))"

definition rejects_at_pro :: "client_pro \<Rightarrow> nat \<Rightarrow> bool" where
  "rejects_at_pro cl i = (\<forall>req. \<exists>v. parse_pro cl i req = Inr (Some v) \<and> \<not> is_compliant v)"

definition approves_at_pro :: "client_pro \<Rightarrow> nat \<Rightarrow> bool" where
  "approves_at_pro cl i = (\<forall>req. \<exists>v. parse_pro cl i req = Inr (Some v) \<and> is_compliant v)"

definition always_rejects_pro :: "client_pro \<Rightarrow> nat \<Rightarrow> bool" where
  "always_rejects_pro cl n =
     (\<forall>i<n. answers_at (create_pro cl) (2 * i) \<and> rejects_at_pro cl (2 * i + 1))"

definition first_approves_on_pro :: "client_pro \<Rightarrow> nat \<Rightarrow> bool" where
  "first_approves_on_pro cl k =
     (0 < k \<and> always_rejects_pro cl (k - 1) \<and> answers_at (create_pro cl) (2 * (k - 1)) \<and>
      approves_at_pro cl (2 * (k - 1) + 1))"

text \<open>Services for concrete runs of the two loops.\<close>

definition stubborn_client :: client where
  "stubborn_client n req =
     (if even n then Inr ''DeFi will double your money.''
      else Inr ''  The summary contains forward-looking statements. '')"

definition second_try_client :: client where
  "second_try_client n req =
     (if even n then Inr ''DeFi has grown.''
      else if n = 1 then Inr ''Not approved: speculative claims.''
      else Inr ''Approved'')"

definition stubborn_pro :: client_pro where
  "stubborn_pro =
     \<lparr>create_pro = (\<lambda>n req. Inr ''DeFi will double your money.''),
      parse_pro = (\<lambda>n req. Inr (Some \<lparr>is_compliant = False, feedback = ''hype'', risk_score = 9\<rparr>))\<rparr>"

definition second_try_pro :: client_pro where
  "second_try_pro =
     \<lparr>create_pro = (\<lambda>n req. Inr ''DeFi has grown.''),
      parse_pro = (\<lambda>n req. Inr (Some \<lparr>is_compliant = (n \<noteq> 1), feedback = ''hype'',
                                        risk_score = 5\<rparr>))\<rparr>"

text \<open>
  The same assumptions for \<open>EvaluationAgent.evaluate\<close>: in iteration \<open>i\<close> the worker
  answers, the evaluation (call \<open>2i\<close> of the client) does not start with \<open>yes\<close>, and
  the call for the instructions (call \<open>2i + 1\<close>) answers.
\<close>

definition says_no_at :: "client \<Rightarrow> nat \<Rightarrow> bool" where
  "says_no_at cl i = (\<forall>req. \<exists>s. cl i req = Inr s \<and> \<not> startswith (lower (strip s)) ''yes'')"

definition worker_answers_at :: "EvaluationAgent \<Rightarrow> nat \<Rightarrow> bool" where
  "worker_answers_at agent i = (\<forall>p. \<exists>r. worker_agent agent i p = Inr r)"

definition never_accepts :: "client \<Rightarrow> EvaluationAgent \<Rightarrow> nat \<Rightarrow> bool" where
  "never_accepts cl agent n =
     (\<forall>i<n. worker_answers_at agent i \<and> says_no_at cl (2 * i) \<and> answers_at cl (2 * i + 1))"

definition other_stubborn_pro :: client_pro where
  "other_stubborn_pro =
     \<lparr>create_pro = (\<lambda>n req. Inr ''Banks are finished.''),
      parse_pro = (\<lambda>n req. Inr (Some \<lparr>is_compliant = False, feedback = ''alarmist'',
                                        risk_score = 8\<rparr>))\<rparr>"

definition sample_agent :: EvaluationAgent where
  "sample_agent =
     \<lparr>openai_api_key = ''sk-test'', persona = ''You are an evaluation agent'',
      evaluation_criteria = ''The answer is a single city name'',
      worker_agent = (\<lambda>i p. Inr (if i = 0 then ''Paris, of course'' else ''It is Paris'')),
      max_interactions = 2\<rparr>"

definition fussy_client :: client where
  "fussy_client n req =
     (if even n then Inr ''No, the answer is a sentence.'' else Inr ''  Answer with one word. '')"

section \<open>The parallel fan-out: \<open>05-parallelization/challenge.py\<close> and \<open>demo.py\<close>\<close>

text \<open>
  Each specialist runs in a thread of its own and stores its answer under its own key of
  the shared dictionary \<open>agent_outputs\<close>; an exception ends the thread and stores
  nothing. After the joins the dictionary holds the keys of the specialists that
  answered. The three outcomes are given; the order in which the threads ran does not
  matter, the keys being distinct.
\<close>

definition store :: "string \<Rightarrow> exn + string \<Rightarrow> (string \<rightharpoonup> string) \<Rightarrow> (string \<rightharpoonup> string)" where
  "store key outcome_of_thread outputs =
     (case outcome_of_thread of Inl e \<Rightarrow> outputs | Inr content \<Rightarrow> outputs(key \<mapsto> content))"

definition fan_out :: "exn + string \<Rightarrow> exn + string \<Rightarrow> exn + string \<Rightarrow> (string \<rightharpoonup> string)" where
  "fan_out legal_outcome compliance_outcome financial_outcome =
     store ''financial'' financial_outcome
       (store ''compliance'' compliance_outcome (store ''legal'' legal_outcome Map.empty))"

text \<open>\<open>inputs.get(key, default)\<close>\<close>

definition dict_get :: "(string \<rightharpoonup> string) \<Rightarrow> string \<Rightarrow> string \<Rightarrow> string" where
  "dict_get inputs key dflt = (case inputs key of None \<Rightarrow> dflt | Some v \<Rightarrow> v)"

definition indent :: string where
  "indent = ''        ''"

definition summary_user_prompt :: "string \<Rightarrow> string \<Rightarrow> string \<Rightarrow> string \<Rightarrow> string" where
  "summary_user_prompt contract_text legal_findings compliance_findings financial_findings =
     newline @ indent @ ''Please synthesize the following analyses into an Executive Summary.'' @
     newline @ indent @
     newline @ indent @ ''--- ORIGINAL TEXT SNIPPET ---'' @
     newline @ indent @ take 300 contract_text @ ''...'' @
     newline @ indent @
     newline @ indent @ ''--- LEGAL ANALYSIS ---'' @
     newline @ indent @ legal_findings @
     newline @ indent @
     newline @ indent @ ''--- COMPLIANCE ANALYSIS ---'' @
     newline @ indent @ compliance_findings @
     newline @ indent @
     newline @ indent @ ''--- FINANCIAL ANALYSIS ---'' @
     newline @ indent @ financial_findings @
     newline @ indent @
     newline @ indent @ ''Output format:'' @
     newline @ indent @ ''1. Executive Verdict (GO / NO-GO)'' @
     newline @ indent @ ''2. Top 3 Critical Risks'' @
     newline @ indent @ ''3. Recommended Actions'' @
     newline @ indent"

definition summary_system_prompt :: string where
  "summary_system_prompt =
     ''You are the General Counsel of the corporation. '' @
     ''You have received three expert reports. Your job is not to repeat them, but to synthesize a verdict. '' @
     ''Follow this thinking process:'' @ newline @
     ''1. Compare the findings: Are there contradictions?'' @ newline @
     ''2. Prioritize: Which risks are 'Deal Breakers' vs 'Negotiable'?'' @ newline @
     ''3. Formulate a final recommendation: Sign, Negotiate, or Walk Away.'' @ newline"

definition summary_request :: "string \<Rightarrow> (string \<rightharpoonup> string) \<Rightarrow> request" where
  "summary_request contract_text inputs =
     (let legal_findings = dict_get inputs ''legal'' ''No legal analysis provided.'';
          compliance_findings = dict_get inputs ''compliance'' ''No compliance analysis provided.'';
          financial_findings = dict_get inputs ''financial'' ''No financial analysis provided.''
      in \<lparr>req_model = ''gpt-4'',
          messages = [(''system'', summary_system_prompt),
                      (''user'', summary_user_prompt contract_text legal_findings
                                   compliance_findings financial_findings)],
          temperature = Some (3 / 10), max_tokens = None\<rparr>)"

text \<open>\<open>SummaryAgent.run\<close> of \<open>challenge.py\<close>.\<close>

definition SummaryAgent_run ::
  "client \<Rightarrow> transcript \<Rightarrow> string \<Rightarrow> (string \<rightharpoonup> string) \<Rightarrow> (exn + string) \<times> transcript" where
  "SummaryAgent_run cl w contract_text inputs =
     chat_create cl w (summary_request contract_text inputs)"

text \<open>
  \<open>analyze_contract\<close>: the fan-out, the joins, then the summary. The calls of the
  specialists are not in the transcript, which starts with the call of the summary.
\<close>

definition analyze_contract ::
  "client \<Rightarrow> exn + string \<Rightarrow> exn + string \<Rightarrow> exn + string \<Rightarrow> string \<Rightarrow>
   (exn + string) \<times> transcript" where
  "analyze_contract cl legal_outcome compliance_outcome financial_outcome contract_text =
     SummaryAgent_run cl [] contract_text
       (fan_out legal_outcome compliance_outcome financial_outcome)"





text \<open>What the synthesis is given for a specialist: its answer, or the placeholder.\<close>

definition result_or :: "exn + string \<Rightarrow> string \<Rightarrow> string" where
  "result_or outcome_of_thread placeholder =
     (case outcome_of_thread of Inl e \<Rightarrow> placeholder | Inr content \<Rightarrow> content)"

section \<open>Properties of the assessment gate\<close>

lemma gate2_body_accepts:
  "gate2_body cd s = Inr v \<longleftrightarrow>
     load_severity cd s = Inr v \<and> in_severity_interval (severity v) (est_cost v)"
proof (cases "load_severity cd s")
  case (Inl e)
  then show ?thesis by (simp add: gate2_body_def)
next
  case (Inr b)
  then show ?thesis
    by (cases "severity b") (auto simp: gate2_body_def of_py_int_def Let_def)
qed

lemma gate2_body_cp_accepts:
  "gate2_body_cp load s = Inr v \<longleftrightarrow>
     load s = Inr v \<and> in_severity_interval (severity_cp v) (est_cost_cp v)"
  by (cases "load s"; cases "severity_cp v")
     (auto simp: gate2_body_cp_def of_py_int_def split: if_splits)

lemma gate2_accepts_iff:
  "gate2_cost_range_ok cd s = Inr v \<longleftrightarrow>
     load_severity cd s = Inr v \<and> in_severity_interval (severity v) (est_cost v)"
  unfolding gate2_body_accepts [symmetric]
  by (simp add: gate2_cost_range_ok_def split: sum.splits)

lemma gate2_rejects_with_ValueError:
  "(\<exists>v. gate2_cost_range_ok cd s = Inr v) \<or> (\<exists>m. gate2_cost_range_ok cd s = Inl (ValueError m))"
proof (cases "gate2_body cd s")
  case (Inl e)
  then show ?thesis
    by (cases e) (simp_all add: gate2_cost_range_ok_def)
next
  case (Inr v)
  then show ?thesis by (simp add: gate2_cost_range_ok_def)
qed

lemma gate2_cp_accepts_iff:
  "gate2_cost_range_ok_cp load s = Inr v \<longleftrightarrow>
     load s = Inr v \<and> in_severity_interval (severity_cp v) (est_cost_cp v)"
  unfolding gate2_body_cp_accepts [symmetric]
  by (simp add: gate2_cost_range_ok_cp_def split: sum.splits)

lemma low_boundary_examples:
  "in_severity_interval Low (Fin 1000) \<and> \<not> in_severity_interval Low (Fin (100001 / 100)) \<and>
   in_severity_interval Low (Fin 100) \<and> \<not> in_severity_interval Medium (Fin 1000) \<and>
   in_severity_interval Medium (Fin 5000) \<and> \<not> in_severity_interval High (Fin 5000) \<and>
   \<not> in_severity_interval Low NaN"
  by simp

text \<open>
  C1. Every record the assessment gate accepts has its cost in the interval of its
  severity, and a record outside it is rejected with a validation error
  (\<open>ValueError\<close>). The gate of \<open>gates.py\<close> does both (\<open>gate2_accepts_iff\<close>,
  \<open>gate2_rejects_with_ValueError\<close>). The gate of \<open>chaining-prompting.py\<close> accepts the
  same records (\<open>gate2_cp_accepts_iff\<close>), but a Low record of cost 1000.01 leaves it as
  an \<open>UnboundLocalError\<close>, not as a \<open>ValueError\<close>: the handler that should re-raise
  the validation error names an unbound variable.
\<close>

theorem gate2_cp_rejection_is_not_ValueError:
  "gate2_cost_range_ok_cp
     (\<lambda>s. Inr \<lparr>severity_cp = Low, est_cost_cp = Fin (100001 / 100)\<rparr>)
     ''{severity: Low, est_cost: 1000.01}''
   = Inl (UnboundLocalError ''e'') \<and>
   gate2_cost_range_ok
     \<lparr>load_claim = (\<lambda>s. Inl (ValueError [])),
      load_severity = (\<lambda>s. Inr \<lparr>severity = Low, est_cost = Fin (100001 / 100), reasoning = []\<rparr>),
      load_routing = (\<lambda>s. Inl (ValueError [])),
      dump_claim = (\<lambda>c. []), dump_routing_input = (\<lambda>c v. []),
      str_float = (\<lambda>f. ''1000.01'')\<rparr>
     ''{severity: Low, est_cost: 1000.01}''
   = Inl (ValueError ''Cost $1000.01 out of range for Low severity ($100-$1000)'')"
  by (simp add: gate2_cost_range_ok_cp_def gate2_body_cp_def gate2_cost_range_ok_def
      gate2_body_def of_py_int_def cost_message_def str_int_def)


section \<open>Properties of the claims pipeline\<close>

declare run_from.simps [simp del]

lemma run_from_raise:
  "run_node ev n st w = (Inl e, w') \<Longrightarrow>
   run_from ev n st w = \<lparr>outcome = Inl e, steps = [], calls = w'\<rparr>"
  by (simp add: run_from.simps [of ev n st w])

lemma run_from_edge_raise:
  "run_node ev n st w = (Inr d, w') \<Longrightarrow> next_node n (merge_update st d) = Inl e \<Longrightarrow>
   run_from ev n st w =
     \<lparr>outcome = Inl e,
      steps = [\<lparr>step_node = n, before = st, update = d, after = merge_update st d\<rparr>],
      calls = w'\<rparr>"
  by (simp add: run_from.simps [of ev n st w] Let_def)

lemma run_from_end:
  "run_node ev n st w = (Inr d, w') \<Longrightarrow> next_node n (merge_update st d) = Inr None \<Longrightarrow>
   run_from ev n st w =
     \<lparr>outcome = Inr (merge_update st d),
      steps = [\<lparr>step_node = n, before = st, update = d, after = merge_update st d\<rparr>],
      calls = w'\<rparr>"
  by (simp add: run_from.simps [of ev n st w] Let_def)

lemma run_from_continue:
  "run_node ev n st w = (Inr d, w') \<Longrightarrow> next_node n (merge_update st d) = Inr (Some n') \<Longrightarrow>
   run_from ev n st w =
     (run_from ev n' (merge_update st d) w')
       \<lparr>steps := \<lparr>step_node = n, before = st, update = d, after = merge_update st d\<rparr> #
                 steps (run_from ev n' (merge_update st d) w')\<rparr>"
  by (simp add: run_from.simps [of ev n st w] Let_def)

text \<open>
  Induction over a run: a property of the run from a node follows from the four ways a
  run can go on after this node.
\<close>

lemma run_from_cases [case_names raised edge_raised stop continue]:
  assumes "\<And>e w'. run_node ev n st w = (Inl e, w') \<Longrightarrow> P"
    and "\<And>d w' e. run_node ev n st w = (Inr d, w') \<Longrightarrow>
           next_node n (merge_update st d) = Inl e \<Longrightarrow> P"
    and "\<And>d w'. run_node ev n st w = (Inr d, w') \<Longrightarrow>
           next_node n (merge_update st d) = Inr None \<Longrightarrow> P"
    and "\<And>d w' n'. run_node ev n st w = (Inr d, w') \<Longrightarrow>
           next_node n (merge_update st d) = Inr (Some n') \<Longrightarrow> P"
  shows P
proof (cases "run_node ev n st w")
  case (Pair res w')
  show ?thesis
  proof (cases res)
    case (Inl e)
    with Pair assms(1) show ?thesis by simp
  next
    case (Inr d)
    show ?thesis
    proof (cases "next_node n (merge_update st d)")
      case (Inl e)
      with Pair Inr assms(2) show ?thesis by simp
    next
      case nxt: (Inr opt)
      with Pair Inr assms(3,4) show ?thesis by (cases opt) simp_all
    qed
  qed
qed

lemma status_merge_update:
  "status (merge_update st d) = overwrite (status st) (status d)"
  by (simp add: merge_update_def)

lemma next_node_after_failed:
  "status d = Some ''failed'' \<Longrightarrow> next_node n (merge_update st d) = Inr None"
  by (cases n)
     (simp_all add: conditional_edge_def should_continue_def status_merge_update overwrite_def)

lemma next_node_rank:
  "next_node n st = Inr (Some n') \<Longrightarrow> node_rank n' < node_rank n"
  by (cases n) (auto simp: conditional_edge_def split: sum.splits if_splits)

lemma run_from_fail_fast:
  "i < length (steps (run_from ev n st w)) \<Longrightarrow>
   status (update (steps (run_from ev n st w) ! i)) = Some ''failed'' \<Longrightarrow>
   Suc i = length (steps (run_from ev n st w)) \<and>
   outcome (run_from ev n st w) = Inr (after (steps (run_from ev n st w) ! i)) \<and>
   status (after (steps (run_from ev n st w) ! i)) = Some ''failed''"
proof (induction "node_rank n" arbitrary: n st w i rule: less_induct)
  case less
  show ?case
  proof (cases rule: run_from_cases [of ev n st w])
    case (raised e w')
    with less.prems show ?thesis by (simp add: run_from_raise)
  next
    case (edge_raised d w' e)
    with less.prems next_node_after_failed [of d n st] show ?thesis
      by (auto simp: run_from_edge_raise)
  next
    case (stop d w')
    with less.prems show ?thesis
      by (simp add: run_from_end status_merge_update overwrite_def)
  next
    case (continue d w' n')
    note unfold = run_from_continue [OF continue]
    show ?thesis
    proof (cases i)
      case 0
      with less.prems unfold have "status d = Some ''failed''" by simp
      from next_node_after_failed [OF this, of n st] continue show ?thesis by simp
    next
      case (Suc j)
      with less.prems unfold
      have j: "j < length (steps (run_from ev n' (merge_update st d) w'))"
        and f: "status (update (steps (run_from ev n' (merge_update st d) w') ! j)) =
                Some ''failed''"
        by simp_all
      from less.hyps [OF next_node_rank [OF continue(2)] j f]
      have ih: "length (steps (run_from ev n' (merge_update st d) w')) = Suc j"
        "outcome (run_from ev n' (merge_update st d) w') =
           Inr (after (steps (run_from ev n' (merge_update st d) w') ! j))"
        "status (after (steps (run_from ev n' (merge_update st d) w') ! j)) = Some ''failed''"
        by simp_all
      show ?thesis unfolding unfold Suc by (simp add: ih)
    qed
  qed
qed

lemma next_node_successor:
  "next_node n st = Inr (Some n') \<Longrightarrow>
   (n = extract_claim \<and> n' = assess_severity) \<or> (n = assess_severity \<and> n' = route_claim)"
  by (cases n) (auto simp: conditional_edge_def split: sum.splits if_splits)

lemma run_from_order:
  "prefix (map step_node (steps (run_from ev n st w))) (dropWhile (\<lambda>m. m \<noteq> n) declared_order)"
proof (induction "node_rank n" arbitrary: n st w rule: less_induct)
  case less
  show ?case
  proof (cases rule: run_from_cases [of ev n st w])
    case (raised e w')
    then show ?thesis by (simp add: run_from_raise)
  next
    case (edge_raised d w' e)
    then show ?thesis by (cases n) (simp_all add: run_from_edge_raise declared_order_def)
  next
    case (stop d w')
    then show ?thesis by (cases n) (simp_all add: run_from_end declared_order_def)
  next
    case (continue d w' n')
    from less.hyps [OF next_node_rank [OF continue(2)], of "merge_update st d" w']
      next_node_successor [OF continue(2)]
    show ?thesis
      by (auto simp: run_from_continue [OF continue] declared_order_def)
  qed
qed

lemma should_continue_iff:
  "should_continue (st\<lparr>status := Some s\<rparr>) = Inr (if s = ''failed'' then ''end'' else ''continue'')"
  by (simp add: should_continue_def)

lemmas claims_pipeline_defs =
  graph_invoke_def run_from.simps extract_claim_node_def assess_severity_node_def
  route_claim_node_def get_completion_def chat_create_def gate1_validate_claims_info_def
  gate2_cost_range_ok_def gate2_body_def gate3_validate_routing_def merge_update_def
  overwrite_def failed_update_def no_update_def get_errors_def conditional_edge_def
  should_continue_def sample_codec_def sample_claim_def sample_input_def of_py_int_def
  cost_message_def str_int_def Let_def

lemma run_bad_assessment:
  "map step_node (steps (graph_invoke env_bad_assessment sample_input [])) =
     [extract_claim, assess_severity] \<and>
   map (\<lambda>s. status (update s)) (steps (graph_invoke env_bad_assessment sample_input [])) =
     [Some ''claim_extracted'', Some ''failed''] \<and>
   length (calls (graph_invoke env_bad_assessment sample_input [])) = 2"
  by (simp add: claims_pipeline_defs env_bad_assessment_def)

text \<open>
  C2. Once a step of a run returns a dictionary with status \<open>failed\<close>, it is the last
  step executed (the steps follow the declared order, so none of the later nodes
  runs) and the run returns the state after that step, with status \<open>failed\<close>;
  \<open>should_continue\<close> answers \<open>end\<close> exactly for the status \<open>failed\<close> and \<open>continue\<close>
  for every other status.
\<close>

theorem fail_fast_propagation:
  "(\<forall>i < length (steps (graph_invoke ev input w)).
      status (update (steps (graph_invoke ev input w) ! i)) = Some ''failed'' \<longrightarrow>
        Suc i = length (steps (graph_invoke ev input w)) \<and>
        outcome (graph_invoke ev input w) = Inr (after (steps (graph_invoke ev input w) ! i)) \<and>
        status (after (steps (graph_invoke ev input w) ! i)) = Some ''failed'') \<and>
   prefix (map step_node (steps (graph_invoke ev input w))) declared_order \<and>
   should_continue (st\<lparr>status := Some s\<rparr>) =
     Inr (if s = ''failed'' then ''end'' else ''continue'')"
  using run_from_fail_fast [of _ ev extract_claim input w]
    run_from_order [of ev extract_claim input w]
  by (simp add: graph_invoke_def should_continue_iff declared_order_def)

theorem fail_fast_propagation_witness:
  "1 < length (steps (graph_invoke env_bad_assessment sample_input [])) \<and>
   status (update (steps (graph_invoke env_bad_assessment sample_input []) ! 1)) = Some ''failed'' \<and>
   Suc 1 = length (steps (graph_invoke env_bad_assessment sample_input [])) \<and>
   outcome (graph_invoke env_bad_assessment sample_input []) =
     Inr (after (steps (graph_invoke env_bad_assessment sample_input []) ! 1)) \<and>
   status (after (steps (graph_invoke env_bad_assessment sample_input []) ! 1)) = Some ''failed''"
proof -
  let ?R = "graph_invoke env_bad_assessment sample_input []"
  have len: "1 < length (steps ?R)"
    by (simp add: claims_pipeline_defs env_bad_assessment_def)
  have failed: "status (update (steps ?R ! 1)) = Some ''failed''"
    by (simp add: claims_pipeline_defs env_bad_assessment_def)
  from fail_fast_propagation [where ev = env_bad_assessment and input = sample_input and w = "[]"]
  have "\<forall>i < length (steps ?R).
          status (update (steps ?R ! i)) = Some ''failed'' \<longrightarrow>
            Suc i = length (steps ?R) \<and> outcome ?R = Inr (after (steps ?R ! i)) \<and>
            status (after (steps ?R ! i)) = Some ''failed''"
    by (rule conjunct1)
  with len failed show ?thesis by blast
qed









lemma run_all_pass:
  "map step_node (steps (graph_invoke env_all_pass sample_input [])) = declared_order \<and>
   map (\<lambda>s. status (after s)) (steps (graph_invoke env_all_pass sample_input [])) =
     [Some ''claim_extracted'', Some ''severity_assessed'', Some ''completed''] \<and>
   status sample_input = None"
  by (simp add: claims_pipeline_defs env_all_pass_def declared_order_def)



section \<open>Properties of the retrying extraction step\<close>

declare extract_claim_node_lg.simps [simp del]

lemma extract_attempt_one_call:
  "length (snd (extract_attempt ev st w)) = Suc (length w)"
  by (simp add: extract_attempt_def get_completion_lg_def chat_create_def Let_def
      split: sum.splits prod.splits)

text \<open>
  When every attempt fails, whatever the exception, the node makes one call for each
  value of the retry counter below 3 and then returns \<open>failed\<close>.
\<close>

lemma retry_exhausts:
  assumes "\<And>st w. \<exists>e. fst (extract_attempt ev st w) = Inl e \<and> Q e"
  shows "retry_count st < 3 \<Longrightarrow>
     status_lg (fst (extract_claim_node_lg ev st w)) = ''failed'' \<and>
     retry_count (fst (extract_claim_node_lg ev st w)) = 3 \<and>
     length (snd (extract_claim_node_lg ev st w)) = length w + nat (3 - retry_count st) \<and>
     (\<exists>new. errors_lg (fst (extract_claim_node_lg ev st w)) = errors_lg st @ new \<and>
            length new = nat (3 - retry_count st) \<and>
            list_all (\<lambda>m. \<exists>e. Q e \<and> m = ''Extraction error: '' @ str_exn e) new)"
    (is "_ \<Longrightarrow> ?P st w")
proof (induction "nat (3 - retry_count st)" arbitrary: st w rule: less_induct)
  case less
  from assms [of st w] obtain e where e: "fst (extract_attempt ev st w) = Inl e" "Q e"
    by blast
  obtain w' where att: "extract_attempt ev st w = (Inl e, w')"
    using e(1) by (cases "extract_attempt ev st w") simp
  from extract_attempt_one_call [of ev st w] att have w': "length w' = Suc (length w)"
    by simp
  define msg where "msg = ''Extraction error: '' @ str_exn e"
  define st' where "st' = st\<lparr>errors_lg := errors_lg st @ [msg],
                               retry_count := retry_count st + 1\<rparr>"
  have st'_simps: "retry_count st' = retry_count st + 1" "errors_lg st' = errors_lg st @ [msg]"
    by (simp_all add: st'_def)
  have msg_ok: "\<exists>e. Q e \<and> msg = ''Extraction error: '' @ str_exn e"
    using e(2) msg_def by blast
  show ?case
  proof (cases "retry_count st + 1 < 3")
    case True
    then have unfold: "extract_claim_node_lg ev st w = extract_claim_node_lg ev st' w'"
      using att by (simp add: extract_claim_node_lg.simps [of ev st w] st'_def msg_def)
    from True have smaller: "nat (3 - retry_count st') < nat (3 - retry_count st)"
      by (simp add: st'_simps)
    from True have below: "retry_count st' < 3" by (simp add: st'_simps)
    note ih = less.hyps [OF smaller below, of w']
    from ih obtain new where new:
      "errors_lg (fst (extract_claim_node_lg ev st' w')) = errors_lg st' @ new"
      "length new = nat (3 - retry_count st')"
      "list_all (\<lambda>m. \<exists>e. Q e \<and> m = ''Extraction error: '' @ str_exn e) new"
      by blast
    have 1: "status_lg (fst (extract_claim_node_lg ev st w)) = ''failed''"
      and 2: "retry_count (fst (extract_claim_node_lg ev st w)) = 3"
      using ih unfold by simp_all
    have 3: "length (snd (extract_claim_node_lg ev st w)) = length w + nat (3 - retry_count st)"
      using ih w' True unfold by (simp add: st'_simps)
    have 4: "errors_lg (fst (extract_claim_node_lg ev st w)) = errors_lg st @ (msg # new)"
      using new(1) unfold by (simp add: st'_simps)
    have 5: "length (msg # new) = nat (3 - retry_count st)"
      using new(2) True by (simp add: st'_simps)
    have 6: "list_all (\<lambda>m. \<exists>e. Q e \<and> m = ''Extraction error: '' @ str_exn e) (msg # new)"
      using new(3) msg_ok by simp
    from 4 5 6 have "\<exists>new. errors_lg (fst (extract_claim_node_lg ev st w)) = errors_lg st @ new \<and>
            length new = nat (3 - retry_count st) \<and>
            list_all (\<lambda>m. \<exists>e. Q e \<and> m = ''Extraction error: '' @ str_exn e) new"
      by blast
    with 1 2 3 show ?thesis by blast
  next
    case False
    with less.prems have rc: "retry_count st = 2" by simp
    have unfold: "extract_claim_node_lg ev st w = (st'\<lparr>status_lg := ''failed''\<rparr>, w')"
      using att False by (simp add: extract_claim_node_lg.simps [of ev st w] st'_def msg_def)
    have 4: "errors_lg (fst (extract_claim_node_lg ev st w)) = errors_lg st @ [msg]"
      and 5: "length [msg] = nat (3 - retry_count st)"
      and 6: "list_all (\<lambda>m. \<exists>e. Q e \<and> m = ''Extraction error: '' @ str_exn e) [msg]"
      using unfold rc msg_ok by (simp_all add: st'_simps)
    from 4 5 6 have "\<exists>new. errors_lg (fst (extract_claim_node_lg ev st w)) = errors_lg st @ new \<and>
            length new = nat (3 - retry_count st) \<and>
            list_all (\<lambda>m. \<exists>e. Q e \<and> m = ''Extraction error: '' @ str_exn e) new"
      by blast
    moreover have "status_lg (fst (extract_claim_node_lg ev st w)) = ''failed''"
      "retry_count (fst (extract_claim_node_lg ev st w)) = 3"
      "length (snd (extract_claim_node_lg ev st w)) = length w + nat (3 - retry_count st)"
      using unfold rc w' by (simp_all add: st'_simps)
    ultimately show ?thesis by blast
  qed
qed

lemma attempt_rejected_by_gate:
  assumes "\<forall>n req. \<exists>s. client_lg ev n req = Inr s \<and> isl (gate1_validate_claims_info_lg ev s)"
  shows "\<exists>e. fst (extract_attempt ev st w) = Inl e \<and> is_ValueError e"
proof -
  let ?req = "\<lparr>req_model = model_or (model_lg st) (MODEL_value ev),
               messages = [(''system'', INFO_EXTRACTION_PROMPT_lg ev), (''user'', fnol_lg st)],
               temperature = Some 0, max_tokens = Some 300\<rparr>"
  from assms obtain s where s: "client_lg ev (length w) ?req = Inr s"
    "isl (gate1_validate_claims_info_lg ev s)" by blast
  from s(2) have "\<exists>m. gate1_validate_claims_info_lg ev s = Inl (ValueError m)"
    by (auto simp: gate1_validate_claims_info_lg_def split: sum.splits)
  with s(1) show ?thesis
    by (auto simp: extract_attempt_def get_completion_lg_def chat_create_def Let_def)
qed

lemma attempt_transport_failure:
  assumes "\<forall>n req. isl (client_lg ev n req)"
  shows "\<exists>e. fst (extract_attempt ev st w) = Inl e \<and> (\<exists>m. e = RuntimeError (''API error: '' @ m))"
proof -
  let ?req = "\<lparr>req_model = model_or (model_lg st) (MODEL_value ev),
               messages = [(''system'', INFO_EXTRACTION_PROMPT_lg ev), (''user'', fnol_lg st)],
               temperature = Some 0, max_tokens = Some 300\<rparr>"
  from assms have "isl (client_lg ev (length w) ?req)" by blast
  then obtain x where "client_lg ev (length w) ?req = Inl x"
    by (cases "client_lg ev (length w) ?req") simp_all
  then show ?thesis
    by (auto simp: extract_attempt_def get_completion_lg_def chat_create_def Let_def)
qed

lemmas retry_step_defs =
  extract_claim_node_lg.simps extract_attempt_def get_completion_lg_def chat_create_def
  gate1_validate_claims_info_lg_def initial_state_def model_or_def Let_def

text \<open>
  C3. When the gate rejects every answer of the service, \<open>extract_claim_node\<close>, entered
  with \<open>retry_count = 0\<close>, calls the service exactly three times (the transcript grows
  by three calls), records three errors and returns with status \<open>failed\<close> and
  \<open>retry_count = 3\<close>; there is no fourth call.
\<close>

theorem retry_bound_respected:
  assumes "\<forall>n req. \<exists>s. client_lg ev n req = Inr s \<and> isl (gate1_validate_claims_info_lg ev s)"
    and "retry_count st = 0"
  shows "length (snd (extract_claim_node_lg ev st w)) = length w + 3 \<and>
         status_lg (fst (extract_claim_node_lg ev st w)) = ''failed'' \<and>
         retry_count (fst (extract_claim_node_lg ev st w)) = 3 \<and>
         (\<exists>new. errors_lg (fst (extract_claim_node_lg ev st w)) = errors_lg st @ new \<and>
                length new = 3)"
proof -
  from assms(2) have below: "retry_count st < 3" by simp
  from retry_exhausts [of ev is_ValueError st w, OF attempt_rejected_by_gate [OF assms(1)] below]
    assms(2)
  show ?thesis by auto
qed

theorem retry_bound_respected_witness:
  "(\<forall>n req. \<exists>s. client_lg env_not_json n req = Inr s \<and>
              isl (gate1_validate_claims_info_lg env_not_json s)) \<and>
   retry_count (initial_state ''Claim ID: C001'' None ''gpt-4.1-mini'') = 0 \<and>
   length (snd (extract_claim_node_lg env_not_json
                  (initial_state ''Claim ID: C001'' None ''gpt-4.1-mini'') [])) = 3 \<and>
   status_lg (fst (extract_claim_node_lg env_not_json
                  (initial_state ''Claim ID: C001'' None ''gpt-4.1-mini'') [])) = ''failed''"
proof -
  have rejects: "\<forall>n req. \<exists>s. client_lg env_not_json n req = Inr s \<and>
                   isl (gate1_validate_claims_info_lg env_not_json s)"
    by (simp add: env_not_json_def gate1_validate_claims_info_lg_def)
  have fresh: "retry_count (initial_state ''Claim ID: C001'' None ''gpt-4.1-mini'') = 0"
    by (simp add: initial_state_def)
  from retry_bound_respected [OF rejects fresh, of "[]"] rejects fresh
  show ?thesis by simp
qed

text \<open>
  C8 as stated fails: with an unreachable service the node does not propagate the
  transport failure. It records it, counts it as a retry and calls the service again,
  three times in all, and then returns a state with status \<open>failed\<close>.
\<close>

theorem transport_failure_is_retried:
  "extract_claim_node_lg env_unreachable (initial_state ''Claim ID: C001'' None ''gpt-4.1-mini'') [] =
     (\<lparr>fnol_lg = ''Claim ID: C001'', claim_info_lg = None, severity_lg = None, routing_lg = None,
       errors_lg = [''Extraction error: API error: Connection error.'',
                    ''Extraction error: API error: Connection error.'',
                    ''Extraction error: API error: Connection error.''],
       retry_count = 3, status_lg = ''failed'', model_lg = Some ''gpt-4.1-mini''\<rparr>,
      replicate 3
        (\<lparr>req_model = ''gpt-4.1-mini'',
          messages = [(''system'', ''extract''), (''user'', ''Claim ID: C001'')],
          temperature = Some 0, max_tokens = Some 300\<rparr>,
         Inl (APIError ''Connection error.'')))"
  by (simp add: retry_step_defs env_unreachable_def numeral_3_eq_3)

text \<open>
  C8, amended. A transport failure of the service is handled by \<open>extract_claim_node\<close>
  as a validation failure is: when every call fails at the transport level, the node,
  entered with \<open>retry_count = 0\<close>, calls the service three times, records three errors
  that start with \<open>Extraction error: API error: \<close> and returns a state with status
  \<open>failed\<close>; no exception leaves the node.
\<close>

theorem transport_failure_consumes_retries:
  assumes "\<forall>n req. isl (client_lg ev n req)"
    and "retry_count st = 0"
  shows "length (snd (extract_claim_node_lg ev st w)) = length w + 3 \<and>
         status_lg (fst (extract_claim_node_lg ev st w)) = ''failed'' \<and>
         retry_count (fst (extract_claim_node_lg ev st w)) = 3 \<and>
         (\<exists>new. errors_lg (fst (extract_claim_node_lg ev st w)) = errors_lg st @ new \<and>
                length new = 3 \<and>
                list_all (prefix ''Extraction error: API error: '') new)"
proof -
  from assms(2) have below: "retry_count st < 3" by simp
  let ?Q = "\<lambda>e. \<exists>m. e = RuntimeError (''API error: '' @ m)"
  from retry_exhausts [of ev ?Q st w, OF attempt_transport_failure [OF assms(1)] below]
  obtain new where new:
    "errors_lg (fst (extract_claim_node_lg ev st w)) = errors_lg st @ new"
    "length new = nat (3 - retry_count st)"
    "list_all (\<lambda>m. \<exists>e. ?Q e \<and> m = ''Extraction error: '' @ str_exn e) new"
    and rest: "status_lg (fst (extract_claim_node_lg ev st w)) = ''failed''"
    "retry_count (fst (extract_claim_node_lg ev st w)) = 3"
    "length (snd (extract_claim_node_lg ev st w)) = length w + nat (3 - retry_count st)"
    by blast
  from new(3) have "list_all (prefix ''Extraction error: API error: '') new"
    by (auto simp: list_all_iff prefix_def)
  with new(1,2) rest assms(2) show ?thesis by auto
qed

theorem transport_failure_consumes_retries_witness:
  "(\<forall>n req. isl (client_lg env_unreachable n req)) \<and>
   retry_count (initial_state ''Claim ID: C001'' None ''gpt-4.1-mini'') = 0 \<and>
   length (snd (extract_claim_node_lg env_unreachable
                  (initial_state ''Claim ID: C001'' None ''gpt-4.1-mini'') [])) = 3 \<and>
   status_lg (fst (extract_claim_node_lg env_unreachable
                  (initial_state ''Claim ID: C001'' None ''gpt-4.1-mini'') [])) = ''failed''"
proof -
  have down: "\<forall>n req. isl (client_lg env_unreachable n req)"
    by (simp add: env_unreachable_def)
  have fresh: "retry_count (initial_state ''Claim ID: C001'' None ''gpt-4.1-mini'') = 0"
    by (simp add: initial_state_def)
  from transport_failure_consumes_retries [OF down fresh, of "[]"] down fresh
  show ?thesis by simp
qed


section \<open>Properties of the evaluator-optimizer loops\<close>

subsection \<open>The compliance loop of \<open>demo.py\<close>\<close>

lemma report_run_answer:
  "cl (length w) (report_request p fb) = Inr g \<Longrightarrow>
   FinancialReportAgent_run cl w p fb = (Inr g, w @ [(report_request p fb, Inr g)])"
  by (simp add: FinancialReportAgent_run_def chat_create_def Let_def)

lemma compliance_run_answer:
  "cl (length w) (compliance_request g) = Inr c \<Longrightarrow>
   ComplianceAgent_run cl w g = (Inr (strip c), w @ [(compliance_request g, Inr c)])"
  by (simp add: ComplianceAgent_run_def chat_create_def Let_def)

lemma main_loop_rejected_cycle:
  assumes "cl (length w) (report_request p fb) = Inr g"
    and "cl (Suc (length w)) (compliance_request g) = Inr c"
    and "\<not> startswith (lower (strip c)) ''approved''"
  shows "main_loop cl p (Suc n) w r fb =
         main_loop cl p n (w @ [(report_request p fb, Inr g), (compliance_request g, Inr c)]) g
           (Some (strip c))"
  using assms
  by (simp add: report_run_answer compliance_run_answer [of cl "w @ [(report_request p fb, Inr g)]"])

lemma main_loop_approved_cycle:
  assumes "cl (length w) (report_request p fb) = Inr g"
    and "cl (Suc (length w)) (compliance_request g) = Inr c"
    and "startswith (lower (strip c)) ''approved''"
  shows "main_loop cl p (Suc n) w r fb =
         (Inr (Final_Approved g),
          w @ [(report_request p fb, Inr g), (compliance_request g, Inr c)])"
  using assms
  by (simp add: report_run_answer compliance_run_answer [of cl "w @ [(report_request p fb, Inr g)]"])

declare main_loop.simps(2) [simp del]

text \<open>The state of the loop after \<open>j\<close> rejected cycles.\<close>

lemma main_loop_rejected_cycles:
  assumes "\<forall>i<j. answers_at cl (length w + 2 * i) \<and> rejects_at cl (length w + 2 * i + 1)"
    and "j \<le> n"
  shows "\<exists>w' r' fb'.
           main_loop cl p n w r fb = main_loop cl p (n - j) w' r' fb' \<and>
           length w' = length w + 2 * j \<and>
           (j = 0 \<longrightarrow> w' = w \<and> r' = r \<and> fb' = fb) \<and>
           (0 < j \<longrightarrow> (\<exists>w0 greq ereq c. w' = w0 @ [(greq, Inr r'), (ereq, Inr c)] \<and>
                                       fb' = Some (strip c)))"
  using assms
proof (induction j)
  case 0
  then show ?case by simp
next
  case (Suc j)
  from Suc.prems have "\<forall>i<j. answers_at cl (length w + 2 * i) \<and> rejects_at cl (length w + 2 * i + 1)"
    and "j \<le> n" by simp_all
  from Suc.IH [OF this] obtain w' r' fb' where st:
    "main_loop cl p n w r fb = main_loop cl p (n - j) w' r' fb'"
    "length w' = length w + 2 * j"
    by blast
  from Suc.prems(1) have a: "answers_at cl (length w') " and rj: "rejects_at cl (Suc (length w'))"
    using st(2) by simp_all
  from a obtain g where g: "cl (length w') (report_request p fb') = Inr g"
    unfolding answers_at_def by blast
  from rj obtain c where c: "cl (Suc (length w')) (compliance_request g) = Inr c"
    "\<not> startswith (lower (strip c)) ''approved''"
    unfolding rejects_at_def by blast
  from Suc.prems(2) have left: "n - j = Suc (n - Suc j)" by simp
  let ?w'' = "w' @ [(report_request p fb', Inr g), (compliance_request g, Inr c)]"
  have "main_loop cl p (Suc (n - Suc j)) w' r' fb' =
          main_loop cl p (n - Suc j) ?w'' g (Some (strip c))"
    by (rule main_loop_rejected_cycle [OF g c])
  with st(1) left
  have "main_loop cl p n w r fb = main_loop cl p (n - Suc j) ?w'' g (Some (strip c))"
    by (simp only:)
  moreover have "length ?w'' = length w + 2 * Suc j" using st(2) by simp
  ultimately show ?case by blast
qed

lemma main_loop_bounded:
  "length (snd (main_loop cl p n w r fb)) \<le> length w + 2 * n"
proof (induction n arbitrary: w r fb)
  case 0
  then show ?case by simp
next
  case (Suc n)
  show ?case
  proof (cases "cl (length w) (report_request p fb)")
    case (Inl e)
    then show ?thesis
      by (simp add: main_loop.simps(2) FinancialReportAgent_run_def chat_create_def Let_def)
  next
    case g: (Inr g)
    let ?w1 = "w @ [(report_request p fb, Inr g)]"
    show ?thesis
    proof (cases "cl (length ?w1) (compliance_request g)")
      case (Inl e)
      with g show ?thesis
        by (simp add: main_loop.simps(2) FinancialReportAgent_run_def ComplianceAgent_run_def
            chat_create_def Let_def)
    next
      case c: (Inr c)
      then have c': "cl (Suc (length w)) (compliance_request g) = Inr c" by simp
      show ?thesis
      proof (cases "startswith (lower (strip c)) ''approved''")
        case True
        from main_loop_approved_cycle [OF g c' True, of n r] show ?thesis by simp
      next
        case False
        from main_loop_rejected_cycle [OF g c' False, of n r]
          Suc.IH [of "w @ [(report_request p fb, Inr g), (compliance_request g, Inr c)]" g
                     "Some (strip c)"]
        show ?thesis by simp
      qed
    qed
  qed
qed

lemma main_all_rejected:
  assumes "always_rejects cl n"
  shows "\<exists>r w'. main_loop cl p n [] [] None = (Inr (Failed_after_max_retries r), w') \<and>
                length w' = 2 * n \<and>
                (0 < n \<longrightarrow> (\<exists>w0 greq ereq c. w' = w0 @ [(greq, Inr r), (ereq, Inr c)]))"
proof -
  from assms have "\<forall>i<n. answers_at cl (length ([] :: transcript) + 2 * i) \<and>
                         rejects_at cl (length ([] :: transcript) + 2 * i + 1)"
    by (simp add: always_rejects_def)
  from main_loop_rejected_cycles [OF this order_refl, of p "[]" None]
  obtain w' r' fb' where st: "main_loop cl p n [] [] None = main_loop cl p (n - n) w' r' fb'"
    "length w' = length ([] :: transcript) + 2 * n"
    "0 < n \<longrightarrow> (\<exists>w0 greq ereq c. w' = w0 @ [(greq, Inr r'), (ereq, Inr c)] \<and> fb' = Some (strip c))"
    by blast
  then have "main_loop cl p n [] [] None = (Inr (Failed_after_max_retries r'), w')" by simp
  with st(2,3) show ?thesis by auto
qed

lemma main_first_approval:
  assumes "first_approves_on cl k" and "k \<le> n"
  shows "\<exists>g greq w'. main_loop cl p n [] [] None = (Inr (Final_Approved g), w') \<and>
                    length w' = 2 * k \<and> w' ! (2 * k - 2) = (greq, Inr g)"
proof -
  from assms(1) have k: "0 < k" and rej: "always_rejects cl (k - 1)"
    and a: "answers_at cl (2 * (k - 1))" and ap: "approves_at cl (2 * (k - 1) + 1)"
    by (simp_all add: first_approves_on_def)
  from rej have "\<forall>i<k - 1. answers_at cl (length ([] :: transcript) + 2 * i) \<and>
                         rejects_at cl (length ([] :: transcript) + 2 * i + 1)"
    by (simp add: always_rejects_def)
  moreover from assms(2) k have "k - 1 \<le> n" by simp
  ultimately obtain w' r' fb' where st:
    "main_loop cl p n [] [] None = main_loop cl p (n - (k - 1)) w' r' fb'"
    "length w' = length ([] :: transcript) + 2 * (k - 1)"
    using main_loop_rejected_cycles [of "k - 1" cl "[]" n p "[]" None] by blast
  from a st(2) obtain g where g: "cl (length w') (report_request p fb') = Inr g"
    unfolding answers_at_def by auto
  from ap st(2) obtain c where c: "cl (Suc (length w')) (compliance_request g) = Inr c"
    "startswith (lower (strip c)) ''approved''"
    unfolding approves_at_def by auto
  from assms(2) k have left: "n - (k - 1) = Suc (n - k)" by simp
  let ?w'' = "w' @ [(report_request p fb', Inr g), (compliance_request g, Inr c)]"
  have "main_loop cl p (Suc (n - k)) w' r' fb' = (Inr (Final_Approved g), ?w'')"
    by (rule main_loop_approved_cycle [OF g c])
  with st(1) left have "main_loop cl p n [] [] None = (Inr (Final_Approved g), ?w'')"
    by (simp only:)
  moreover have "length ?w'' = 2 * k" using st(2) k by simp
  moreover have "?w'' ! (2 * k - 2) = (report_request p fb', Inr g)"
  proof -
    from st(2) k have "2 * k - 2 = length w'" by simp
    then show ?thesis by simp
  qed
  ultimately show ?thesis by blast
qed

subsection \<open>The structured loop of \<open>demo_professional.py\<close>\<close>

lemma stop_after_attempt_answer:
  "f w = (Inr v, w') \<Longrightarrow> stop_after_attempt k f w = (Inr v, w')"
  by (cases k) simp_all

lemma stop_after_attempt_length:
  assumes "\<And>w. length (snd (f w)) = Suc (length w)"
  shows "length (snd (stop_after_attempt k f w)) \<le> length w + Suc k \<and>
         length w < length (snd (stop_after_attempt k f w))"
proof (induction k arbitrary: w)
  case 0
  obtain r w' where fw: "f w = (r, w')" by (cases "f w")
  with assms [of w] show ?case by (cases r) simp_all
next
  case (Suc k)
  obtain r w' where fw: "f w = (r, w')" by (cases "f w")
  with assms [of w] have len: "length w' = Suc (length w)" by simp
  show ?case
  proof (cases r)
    case (Inl e)
    with fw Suc.IH [of w'] len show ?thesis by simp
  next
    case (Inr v)
    with fw len show ?thesis by simp
  qed
qed

lemma generate_answer:
  "create_pro cl (length w) (generate_request p fb) = Inr s \<Longrightarrow>
   generate cl p fb w = (Inr s, w @ [Created (generate_request p fb) (Inr s)])"
  by (simp add: generate_def generate_once_def Let_def stop_after_attempt_answer)

lemma evaluate_answer:
  "parse_pro cl (length w) (evaluate_request d) = Inr v \<Longrightarrow>
   evaluate cl d w = (Inr v, w @ [Parsed (evaluate_request d) (Inr v)])"
  by (simp add: evaluate_def evaluate_once_def Let_def stop_after_attempt_answer)

lemma generate_length:
  "length (snd (generate cl p fb w)) \<le> length w + 3"
  using stop_after_attempt_length [of "generate_once cl p fb" 2 w]
  by (simp add: generate_def generate_once_def Let_def)

lemma evaluate_length:
  "length (snd (evaluate cl d w)) \<le> length w + 3"
  using stop_after_attempt_length [of "evaluate_once cl d" 2 w]
  by (simp add: evaluate_def evaluate_once_def Let_def)

lemma optimization_loop_rejected_cycle:
  assumes "create_pro cl (length w) (generate_request p fb) = Inr d"
    and "parse_pro cl (Suc (length w)) (evaluate_request d) = Inr (Some v)"
    and "\<not> is_compliant v"
  shows "optimization_loop cl p (Suc n) w fb =
         optimization_loop cl p n
           (w @ [Created (generate_request p fb) (Inr d),
                 Parsed (evaluate_request d) (Inr (Some v))])
           (Some (feedback v))"
  using assms
  by (simp add: generate_answer
      evaluate_answer [of cl "w @ [Created (generate_request p fb) (Inr d)]"])

lemma optimization_loop_approved_cycle:
  assumes "create_pro cl (length w) (generate_request p fb) = Inr d"
    and "parse_pro cl (Suc (length w)) (evaluate_request d) = Inr (Some v)"
    and "is_compliant v"
  shows "optimization_loop cl p (Suc n) w fb =
         (Inr (Some d),
          w @ [Created (generate_request p fb) (Inr d),
               Parsed (evaluate_request d) (Inr (Some v))])"
  using assms
  by (simp add: generate_answer
      evaluate_answer [of cl "w @ [Created (generate_request p fb) (Inr d)]"])

lemma optimization_loop_bounded:
  "length (snd (optimization_loop cl p n w fb)) \<le> length w + 6 * n"
proof (induction n arbitrary: w fb)
  case 0
  then show ?case by simp
next
  case (Suc n)
  obtain rg w1 where gen: "generate cl p fb w = (rg, w1)" by (cases "generate cl p fb w")
  with generate_length [of cl p fb w] have w1: "length w1 \<le> length w + 3" by simp
  show ?case
  proof (cases rg)
    case (Inl e)
    with gen w1 show ?thesis by simp
  next
    case d: (Inr d)
    obtain re w2 where ev: "evaluate cl d w1 = (re, w2)" by (cases "evaluate cl d w1")
    with evaluate_length [of cl d w1] w1 have w2: "length w2 \<le> length w + 6" by simp
    show ?thesis
    proof (cases re)
      case (Inl e)
      with gen d ev w2 show ?thesis by simp
    next
      case res: (Inr res)
      show ?thesis
      proof (cases res)
        case None
        with gen d ev res w2 show ?thesis by simp
      next
        case (Some v)
        with gen d ev res w2 Suc.IH [of w2 "Some (feedback v)"] show ?thesis by simp
      qed
    qed
  qed
qed

declare optimization_loop.simps(2) [simp del]

lemma optimization_loop_rejected_cycles:
  assumes "\<forall>i<j. answers_at (create_pro cl) (length w + 2 * i) \<and>
                 rejects_at_pro cl (length w + 2 * i + 1)"
    and "j \<le> n"
  shows "\<exists>w' fb'.
           optimization_loop cl p n w fb = optimization_loop cl p (n - j) w' fb' \<and>
           length w' = length w + 2 * j"
  using assms
proof (induction j)
  case 0
  have "optimization_loop cl p n w fb = optimization_loop cl p (n - 0) w fb \<and>
        length w = length w + 2 * 0" by simp
  then show ?case by blast
next
  case (Suc j)
  from Suc.prems have "\<forall>i<j. answers_at (create_pro cl) (length w + 2 * i) \<and>
                            rejects_at_pro cl (length w + 2 * i + 1)"
    and "j \<le> n" by simp_all
  from Suc.IH [OF this] obtain w' fb' where st:
    "optimization_loop cl p n w fb = optimization_loop cl p (n - j) w' fb'"
    "length w' = length w + 2 * j"
    by blast
  from Suc.prems(1) have a: "answers_at (create_pro cl) (length w')"
    and rj: "rejects_at_pro cl (Suc (length w'))"
    using st(2) by simp_all
  from a obtain d where d: "create_pro cl (length w') (generate_request p fb') = Inr d"
    unfolding answers_at_def by blast
  from rj obtain v where v: "parse_pro cl (Suc (length w')) (evaluate_request d) = Inr (Some v)"
    "\<not> is_compliant v"
    unfolding rejects_at_pro_def by blast
  from Suc.prems(2) have left: "n - j = Suc (n - Suc j)" by simp
  let ?w'' = "w' @ [Created (generate_request p fb') (Inr d),
                    Parsed (evaluate_request d) (Inr (Some v))]"
  have "optimization_loop cl p (Suc (n - Suc j)) w' fb' =
          optimization_loop cl p (n - Suc j) ?w'' (Some (feedback v))"
    by (rule optimization_loop_rejected_cycle [OF d v])
  with st(1) left
  have "optimization_loop cl p n w fb = optimization_loop cl p (n - Suc j) ?w'' (Some (feedback v))"
    by (simp only:)
  moreover have "length ?w'' = length w + 2 * Suc j" using st(2) by simp
  ultimately show ?case by blast
qed

lemma optimization_all_rejected:
  assumes "always_rejects_pro cl n"
  shows "\<exists>w'. optimization_loop cl p n [] None = (Inr None, w') \<and> length w' = 2 * n"
proof -
  from assms have "\<forall>i<n. answers_at (create_pro cl) (length ([] :: transcript_pro) + 2 * i) \<and>
                         rejects_at_pro cl (length ([] :: transcript_pro) + 2 * i + 1)"
    by (simp add: always_rejects_pro_def)
  from optimization_loop_rejected_cycles [OF this order_refl, of p None]
  obtain w' fb' where st: "optimization_loop cl p n [] None = optimization_loop cl p (n - n) w' fb'"
    "length w' = length ([] :: transcript_pro) + 2 * n"
    by blast
  then have "optimization_loop cl p n [] None = (Inr None, w')" by simp
  with st(2) show ?thesis by auto
qed

lemma optimization_first_approval:
  assumes "first_approves_on_pro cl k" and "k \<le> n"
  shows "\<exists>d greq w'. optimization_loop cl p n [] None = (Inr (Some d), w') \<and>
                    length w' = 2 * k \<and> w' ! (2 * k - 2) = Created greq (Inr d)"
proof -
  from assms(1) have k: "0 < k" and rej: "always_rejects_pro cl (k - 1)"
    and a: "answers_at (create_pro cl) (2 * (k - 1))"
    and ap: "approves_at_pro cl (2 * (k - 1) + 1)"
    by (simp_all add: first_approves_on_pro_def)
  from rej have "\<forall>i<k - 1. answers_at (create_pro cl) (length ([] :: transcript_pro) + 2 * i) \<and>
                         rejects_at_pro cl (length ([] :: transcript_pro) + 2 * i + 1)"
    by (simp add: always_rejects_pro_def)
  moreover from assms(2) k have "k - 1 \<le> n" by simp
  ultimately obtain w' fb' where st:
    "optimization_loop cl p n [] None = optimization_loop cl p (n - (k - 1)) w' fb'"
    "length w' = length ([] :: transcript_pro) + 2 * (k - 1)"
    using optimization_loop_rejected_cycles [of "k - 1" cl "[]" n p None] by blast
  from a st(2) obtain d where d: "create_pro cl (length w') (generate_request p fb') = Inr d"
    unfolding answers_at_def by auto
  from ap st(2) obtain v where v:
    "parse_pro cl (Suc (length w')) (evaluate_request d) = Inr (Some v)" "is_compliant v"
    unfolding approves_at_pro_def by auto
  from assms(2) k have left: "n - (k - 1) = Suc (n - k)" by simp
  let ?w'' = "w' @ [Created (generate_request p fb') (Inr d),
                    Parsed (evaluate_request d) (Inr (Some v))]"
  have "optimization_loop cl p (Suc (n - k)) w' fb' = (Inr (Some d), ?w'')"
    by (rule optimization_loop_approved_cycle [OF d v])
  with st(1) left have "optimization_loop cl p n [] None = (Inr (Some d), ?w'')"
    by (simp only:)
  moreover have "length ?w'' = 2 * k" using st(2) k by simp
  moreover have "?w'' ! (2 * k - 2) = Created (generate_request p fb') (Inr d)"
  proof -
    from st(2) k have "2 * k - 2 = length w'" by simp
    then show ?thesis by simp
  qed
  ultimately show ?thesis by blast
qed

lemma sample_verdicts:
  "\<not> startswith (lower (strip ''  The summary contains forward-looking statements. '')) ''approved''"
  "\<not> startswith (lower (strip ''Not approved: speculative claims.'')) ''approved''"
  "startswith (lower (strip ''Approved'')) ''approved''"
  by code_simp+

lemma stubborn_client_rejects: "always_rejects stubborn_client n"
  by (simp add: always_rejects_def answers_at_def rejects_at_def stubborn_client_def
      sample_verdicts)

lemma second_try_client_approves: "first_approves_on second_try_client 2"
  by (simp add: first_approves_on_def always_rejects_def answers_at_def rejects_at_def
      approves_at_def second_try_client_def sample_verdicts)

lemma stubborn_pro_rejects: "always_rejects_pro stubborn_pro n"
  by (simp add: always_rejects_pro_def answers_at_def rejects_at_pro_def stubborn_pro_def)

lemma second_try_pro_approves: "first_approves_on_pro second_try_pro 2"
  by (simp add: first_approves_on_pro_def always_rejects_pro_def answers_at_def
      rejects_at_pro_def approves_at_pro_def second_try_pro_def)

text \<open>
  C4. With iteration ceiling \<open>N\<close>: if the evaluator rejects on every cycle, the loop
  makes exactly \<open>N\<close> cycles (two calls each) and ends with the failure outcome; if the
  evaluator first approves on cycle \<open>k \<le> N\<close>, the loop ends after \<open>k\<close> cycles with the
  candidate of cycle \<open>k\<close>, so the generator is not called again; and whatever the
  service does, the loop is bounded: at most \<open>2N\<close> calls in \<open>demo.py\<close>, at most \<open>6N\<close>
  in \<open>demo_professional.py\<close>, where each of the two calls of a cycle is tried up to
  three times.
\<close>

theorem evaluator_optimizer_termination:
  "(always_rejects cl (nat N) \<longrightarrow>
      (\<exists>r. fst (main_with cl p N) = Inr (Failed_after_max_retries r)) \<and>
      length (snd (main_with cl p N)) = 2 * nat N) \<and>
   (first_approves_on cl k \<and> k \<le> nat N \<longrightarrow>
      (\<exists>g greq. fst (main_with cl p N) = Inr (Final_Approved g) \<and>
                snd (main_with cl p N) ! (2 * k - 2) = (greq, Inr g)) \<and>
      length (snd (main_with cl p N)) = 2 * k) \<and>
   length (snd (main_with cl p N)) \<le> 2 * nat N \<and>
   (always_rejects_pro clp (nat N) \<longrightarrow>
      fst (run_optimization_loop clp p N) = Inr None \<and>
      length (snd (run_optimization_loop clp p N)) = 2 * nat N) \<and>
   (first_approves_on_pro clp k \<and> k \<le> nat N \<longrightarrow>
      (\<exists>d greq. fst (run_optimization_loop clp p N) = Inr (Some d) \<and>
                snd (run_optimization_loop clp p N) ! (2 * k - 2) = Created greq (Inr d)) \<and>
      length (snd (run_optimization_loop clp p N)) = 2 * k) \<and>
   length (snd (run_optimization_loop clp p N)) \<le> 6 * nat N"
proof (intro conjI impI)
  assume "always_rejects cl (nat N)"
  from main_all_rejected [OF this, of p]
  show "\<exists>r. fst (main_with cl p N) = Inr (Failed_after_max_retries r)"
    and "length (snd (main_with cl p N)) = 2 * nat N"
    by (auto simp: main_with_def)
next
  assume "first_approves_on cl k \<and> k \<le> nat N"
  then have "first_approves_on cl k" "k \<le> nat N" by simp_all
  from main_first_approval [OF this, of p]
  show "\<exists>g greq. fst (main_with cl p N) = Inr (Final_Approved g) \<and>
                 snd (main_with cl p N) ! (2 * k - 2) = (greq, Inr g)"
    and "length (snd (main_with cl p N)) = 2 * k"
    by (auto simp: main_with_def)
next
  from main_loop_bounded [of cl p "nat N" "[]" "[]" None]
  show "length (snd (main_with cl p N)) \<le> 2 * nat N" by (simp add: main_with_def)
next
  assume "always_rejects_pro clp (nat N)"
  from optimization_all_rejected [OF this, of p]
  show "fst (run_optimization_loop clp p N) = Inr None"
    and "length (snd (run_optimization_loop clp p N)) = 2 * nat N"
    by (auto simp: run_optimization_loop_def)
next
  assume "first_approves_on_pro clp k \<and> k \<le> nat N"
  then have "first_approves_on_pro clp k" "k \<le> nat N" by simp_all
  from optimization_first_approval [OF this, of p]
  show "\<exists>d greq. fst (run_optimization_loop clp p N) = Inr (Some d) \<and>
                 snd (run_optimization_loop clp p N) ! (2 * k - 2) = Created greq (Inr d)"
    and "length (snd (run_optimization_loop clp p N)) = 2 * k"
    by (auto simp: run_optimization_loop_def)
next
  from optimization_loop_bounded [of clp p "nat N" "[]" None]
  show "length (snd (run_optimization_loop clp p N)) \<le> 6 * nat N"
    by (simp add: run_optimization_loop_def)
qed

theorem evaluator_optimizer_termination_witness:
  "always_rejects stubborn_client (nat MAX_RETRIES) \<and>
   length (snd (main stubborn_client)) = 10 \<and>
   (\<exists>r. fst (main stubborn_client) = Inr (Failed_after_max_retries r)) \<and>
   first_approves_on second_try_client 2 \<and> 2 \<le> nat MAX_RETRIES \<and>
   length (snd (main second_try_client)) = 4 \<and>
   (\<exists>g. fst (main second_try_client) = Inr (Final_Approved g)) \<and>
   always_rejects_pro stubborn_pro (nat max_retries_default) \<and>
   fst (run_optimization_loop stubborn_pro user_prompt max_retries_default) = Inr None \<and>
   length (snd (run_optimization_loop stubborn_pro user_prompt max_retries_default)) = 12 \<and>
   first_approves_on_pro second_try_pro 2 \<and>
   length (snd (run_optimization_loop second_try_pro user_prompt max_retries_default)) = 4"
proof -
  have five: "nat MAX_RETRIES = 5" by (simp add: MAX_RETRIES_def)
  have six: "nat max_retries_default = 6" by (simp add: max_retries_default_def)
  note rej = stubborn_client_rejects [of "nat MAX_RETRIES"]
  note app = second_try_client_approves
  note rejp = stubborn_pro_rejects [of "nat max_retries_default"]
  note appp = second_try_pro_approves
  from evaluator_optimizer_termination
         [where cl = stubborn_client and N = MAX_RETRIES and p = user_prompt] rej five
  have 1: "length (snd (main stubborn_client)) = 10"
    "\<exists>r. fst (main stubborn_client) = Inr (Failed_after_max_retries r)"
    by (simp_all add: main_def)
  from evaluator_optimizer_termination
         [where cl = second_try_client and N = MAX_RETRIES and p = user_prompt and k = 2] app five
  have 2: "length (snd (main second_try_client)) = 4"
    "\<exists>g. fst (main second_try_client) = Inr (Final_Approved g)"
    by (auto simp: main_def)
  from evaluator_optimizer_termination
         [where clp = stubborn_pro and N = max_retries_default and p = user_prompt] rejp six
  have 3: "fst (run_optimization_loop stubborn_pro user_prompt max_retries_default) = Inr None"
    "length (snd (run_optimization_loop stubborn_pro user_prompt max_retries_default)) = 12"
    by simp_all
  from evaluator_optimizer_termination
         [where clp = second_try_pro and N = max_retries_default and p = user_prompt and k = 2] appp six
  have 4: "length (snd (run_optimization_loop second_try_pro user_prompt max_retries_default)) = 4"
    by simp
  from rej app rejp appp five 1 2 3 4 show ?thesis by simp
qed


subsection \<open>What the generator is given\<close>

lemma main_loop_feedback:
  "\<exists>ext. snd (main_loop cl p n w r fb) = w @ ext \<and> latest_feedback_only p fb ext"
proof (induction n arbitrary: w r fb)
  case 0
  then show ?case by simp
next
  case (Suc n)
  let ?greq = "report_request p fb"
  show ?case
  proof (cases "cl (length w) ?greq")
    case (Inl e)
    then have "snd (main_loop cl p (Suc n) w r fb) = w @ [(?greq, Inl e)]"
      by (simp add: main_loop.simps(2) FinancialReportAgent_run_def chat_create_def Let_def)
    moreover have "latest_feedback_only p fb [(?greq, Inl e)]" by simp
    ultimately show ?thesis by blast
  next
    case g: (Inr g)
    let ?ereq = "compliance_request g"
    show ?thesis
    proof (cases "cl (Suc (length w)) ?ereq")
      case (Inl e)
      with g have "snd (main_loop cl p (Suc n) w r fb) = w @ [(?greq, Inr g), (?ereq, Inl e)]"
        by (simp add: main_loop.simps(2) FinancialReportAgent_run_def ComplianceAgent_run_def
            chat_create_def Let_def)
      moreover have "latest_feedback_only p fb [(?greq, Inr g), (?ereq, Inl e)]" by simp
      ultimately show ?thesis by blast
    next
      case c: (Inr c)
      show ?thesis
      proof (cases "startswith (lower (strip c)) ''approved''")
        case True
        from main_loop_approved_cycle [OF g c True, of n r]
        have "snd (main_loop cl p (Suc n) w r fb) = w @ [(?greq, Inr g), (?ereq, Inr c)]"
          by simp
        moreover have "latest_feedback_only p fb [(?greq, Inr g), (?ereq, Inr c)]" by simp
        ultimately show ?thesis by blast
      next
        case False
        let ?w2 = "w @ [(?greq, Inr g), (?ereq, Inr c)]"
        from Suc.IH [of ?w2 g "Some (strip c)"] obtain ext where ext:
          "snd (main_loop cl p n ?w2 g (Some (strip c))) = ?w2 @ ext"
          "latest_feedback_only p (Some (strip c)) ext"
          by blast
        from main_loop_rejected_cycle [OF g c False, of n r] ext(1)
        have "snd (main_loop cl p (Suc n) w r fb) = w @ ((?greq, Inr g) # (?ereq, Inr c) # ext)"
          by simp
        moreover from ext(2)
        have "latest_feedback_only p fb ((?greq, Inr g) # (?ereq, Inr c) # ext)" by simp
        ultimately show ?thesis by blast
      qed
    qed
  qed
qed

lemma stop_after_attempt_shape:
  assumes "\<And>w. f w = (orc (length w), w @ [mk (orc (length w))])"
  shows "\<exists>es. snd (stop_after_attempt k f w) =
               w @ map (\<lambda>e. mk (Inl e)) es @
                 (case fst (stop_after_attempt k f w) of Inl e \<Rightarrow> [] | Inr v \<Rightarrow> [mk (Inr v)])"
proof (induction k arbitrary: w)
  case 0
  show ?case
  proof (cases "orc (length w)")
    case (Inl e)
    with assms [of w] have "snd (stop_after_attempt 0 f w) = w @ map (\<lambda>e. mk (Inl e)) [e] @ []"
      "fst (stop_after_attempt 0 f w) = Inl (RetryError (str_exn e))"
      by simp_all
    then show ?thesis by (metis sum.simps(5))
  next
    case (Inr v)
    with assms [of w] have "snd (stop_after_attempt 0 f w) = w @ map (\<lambda>e. mk (Inl e)) [] @ [mk (Inr v)]"
      "fst (stop_after_attempt 0 f w) = Inr v"
      by simp_all
    then show ?thesis by (metis sum.simps(6))
  qed
next
  case (Suc k)
  show ?case
  proof (cases "orc (length w)")
    case (Inl e)
    let ?w' = "w @ [mk (Inl e)]"
    from Inl assms [of w]
    have unfold: "stop_after_attempt (Suc k) f w = stop_after_attempt k f ?w'" by simp
    from Suc.IH [of ?w'] obtain es where
      "snd (stop_after_attempt k f ?w') =
         ?w' @ map (\<lambda>e. mk (Inl e)) es @
           (case fst (stop_after_attempt k f ?w') of Inl e \<Rightarrow> [] | Inr v \<Rightarrow> [mk (Inr v)])"
      by blast
    with unfold have "snd (stop_after_attempt (Suc k) f w) =
         w @ map (\<lambda>e. mk (Inl e)) (e # es) @
           (case fst (stop_after_attempt (Suc k) f w) of Inl e \<Rightarrow> [] | Inr v \<Rightarrow> [mk (Inr v)])"
      by simp
    then show ?thesis by blast
  next
    case (Inr v)
    with assms [of w] have "snd (stop_after_attempt (Suc k) f w) = w @ map (\<lambda>e. mk (Inl e)) [] @ [mk (Inr v)]"
      "fst (stop_after_attempt (Suc k) f w) = Inr v"
      by simp_all
    then show ?thesis by (metis sum.simps(6))
  qed
qed

lemma walk_created:
  "latest_feedback_only_pro p fb (map (\<lambda>e. Created (generate_request p fb) (Inl e)) es @ ys) =
   latest_feedback_only_pro p fb ys"
  by (induction es) simp_all

lemma walk_parsed_errors:
  "latest_feedback_only_pro p fb (map (\<lambda>e. Parsed req (Inl e)) es @ ys) =
   latest_feedback_only_pro p fb ys"
  by (induction es) simp_all

lemma generate_shape:
  "\<exists>es. snd (generate cl p fb w) =
          w @ map (\<lambda>e. Created (generate_request p fb) (Inl e)) es @
            (case fst (generate cl p fb w) of
               Inl e \<Rightarrow> [] | Inr d \<Rightarrow> [Created (generate_request p fb) (Inr d)])"
  unfolding generate_def
  by (rule stop_after_attempt_shape
        [where orc = "\<lambda>n. create_pro cl n (generate_request p fb)"
           and mk = "Created (generate_request p fb)"])
     (simp add: generate_once_def Let_def)

lemma evaluate_shape:
  "\<exists>es. snd (evaluate cl d w) =
          w @ map (\<lambda>e. Parsed (evaluate_request d) (Inl e)) es @
            (case fst (evaluate cl d w) of
               Inl e \<Rightarrow> [] | Inr v \<Rightarrow> [Parsed (evaluate_request d) (Inr v)])"
  unfolding evaluate_def
  by (rule stop_after_attempt_shape
        [where orc = "\<lambda>n. parse_pro cl n (evaluate_request d)"
           and mk = "Parsed (evaluate_request d)"])
     (simp add: evaluate_once_def Let_def)

lemma optimization_loop_feedback:
  "\<exists>ext. snd (optimization_loop cl p n w fb) = w @ ext \<and> latest_feedback_only_pro p fb ext"
proof (induction n arbitrary: w fb)
  case 0
  then show ?case by simp
next
  case (Suc n)
  let ?greq = "generate_request p fb"
  obtain rg w1 where gen: "generate cl p fb w = (rg, w1)" by (cases "generate cl p fb w")
  from generate_shape [of cl p fb w] gen obtain gs where w1:
    "w1 = w @ map (\<lambda>e. Created ?greq (Inl e)) gs @
            (case rg of Inl e \<Rightarrow> [] | Inr d \<Rightarrow> [Created ?greq (Inr d)])"
    by auto
  show ?case
  proof (cases rg)
    case (Inl e)
    with gen w1 have "snd (optimization_loop cl p (Suc n) w fb) =
        w @ map (\<lambda>e. Created ?greq (Inl e)) gs"
      by (simp add: optimization_loop.simps(2))
    moreover have "latest_feedback_only_pro p fb (map (\<lambda>e. Created ?greq (Inl e)) gs)"
      using walk_created [of p fb gs "[]"] by simp
    ultimately show ?thesis by blast
  next
    case d: (Inr d)
    let ?ereq = "evaluate_request d"
    let ?G = "map (\<lambda>e. Created ?greq (Inl e)) gs @ [Created ?greq (Inr d)]"
    from w1 d have w1': "w1 = w @ ?G" by simp
    obtain re w2 where ev: "evaluate cl d w1 = (re, w2)" by (cases "evaluate cl d w1")
    from evaluate_shape [of cl d w1] ev obtain es where w2:
      "w2 = w1 @ map (\<lambda>e. Parsed ?ereq (Inl e)) es @
              (case re of Inl e \<Rightarrow> [] | Inr v \<Rightarrow> [Parsed ?ereq (Inr v)])"
      by auto
    have walk: "latest_feedback_only_pro p fb (?G @ map (\<lambda>e. Parsed ?ereq (Inl e)) es @ ys) =
                latest_feedback_only_pro p fb ys" for ys
      by (simp add: walk_created walk_parsed_errors)
    show ?thesis
    proof (cases re)
      case (Inl e)
      with gen d ev w1' w2 have "snd (optimization_loop cl p (Suc n) w fb) =
          w @ (?G @ map (\<lambda>e. Parsed ?ereq (Inl e)) es @ [])"
        by (simp add: optimization_loop.simps(2))
      moreover have "latest_feedback_only_pro p fb (?G @ map (\<lambda>e. Parsed ?ereq (Inl e)) es @ [])"
        unfolding walk by simp
      ultimately show ?thesis by blast
    next
      case res: (Inr res)
      show ?thesis
      proof (cases res)
        case None
        with gen d ev res w1' w2 have "snd (optimization_loop cl p (Suc n) w fb) =
            w @ (?G @ map (\<lambda>e. Parsed ?ereq (Inl e)) es @ [Parsed ?ereq (Inr None)])"
          by (simp add: optimization_loop.simps(2))
        moreover have "latest_feedback_only_pro p fb
            (?G @ map (\<lambda>e. Parsed ?ereq (Inl e)) es @ [Parsed ?ereq (Inr None)])"
          unfolding walk by simp
        ultimately show ?thesis by blast
      next
        case (Some v)
        show ?thesis
        proof (cases "is_compliant v")
          case True
          with gen d ev res Some w1' w2 have "snd (optimization_loop cl p (Suc n) w fb) =
              w @ (?G @ map (\<lambda>e. Parsed ?ereq (Inl e)) es @ [Parsed ?ereq (Inr (Some v))])"
            by (simp add: optimization_loop.simps(2))
          moreover have "latest_feedback_only_pro p fb
              (?G @ map (\<lambda>e. Parsed ?ereq (Inl e)) es @ [Parsed ?ereq (Inr (Some v))])"
            unfolding walk by simp
          ultimately show ?thesis by blast
        next
          case False
          from Suc.IH [of w2 "Some (feedback v)"] obtain ext where ext:
            "snd (optimization_loop cl p n w2 (Some (feedback v))) = w2 @ ext"
            "latest_feedback_only_pro p (Some (feedback v)) ext"
            by blast
          from False gen d ev res Some w1' w2 ext(1)
          have "snd (optimization_loop cl p (Suc n) w fb) =
              w @ (?G @ map (\<lambda>e. Parsed ?ereq (Inl e)) es @ (Parsed ?ereq (Inr (Some v)) # ext))"
            by (simp add: optimization_loop.simps(2))
          moreover have "latest_feedback_only_pro p fb
              (?G @ map (\<lambda>e. Parsed ?ereq (Inl e)) es @ (Parsed ?ereq (Inr (Some v)) # ext))"
            unfolding walk using ext(2) by simp
          ultimately show ?thesis by blast
        qed
      qed
    qed
  qed
qed

lemma accumulated_feedback_is_refused:
  "\<not> latest_feedback_only ''p'' None
       [(report_request ''p'' None, Inr ''draft 1''),
        (compliance_request ''draft 1'', Inr ''too bold''),
        (report_request ''p'' (Some ''too bold''), Inr ''draft 2''),
        (compliance_request ''draft 2'', Inr ''still vague''),
        (report_request (full_prompt ''p'' (Some ''too bold'')) (Some ''still vague''),
         Inr ''draft 3'')]"
  by (simp add: report_request_def full_prompt_def truthy_def newline_def)
     code_simp

text \<open>
  C5. In both loops every request to the generator is built from the original prompt
  and the feedback of the latest verdict alone (none on the first cycle): the user
  message is the prompt, followed, when that feedback is not empty, by the one feedback
  text between two fixed strings. Earlier feedback is not kept anywhere.
\<close>

theorem generator_sees_latest_feedback_only:
  "latest_feedback_only p None (snd (main_with cl p N)) \<and>
   latest_feedback_only_pro p None (snd (run_optimization_loop clp p N)) \<and>
   messages (report_request p fb) ! 1 = (''user'', full_prompt p fb) \<and>
   messages (generate_request p fb) ! 1 = (''user'', final_prompt p fb) \<and>
   full_prompt p None = p \<and> full_prompt p (Some []) = p \<and>
   full_prompt p (Some (c # cs)) =
     p @ newline @ newline @ ''Evaluator feedback: '' @ (c # cs) @ newline @
     ''Please revise accordingly.'' \<and>
   final_prompt p None = p \<and> final_prompt p (Some []) = p \<and>
   final_prompt p (Some (c # cs)) =
     p @ newline @ newline @ ''--- COMPLIANCE FEEDBACK ---'' @ newline @ (c # cs) @
     newline @ newline @ ''INSTRUCTION: Rewrite the summary fixing the issues above.''"
proof -
  from main_loop_feedback [of cl p "nat N" "[]" "[]" None]
  have "latest_feedback_only p None (snd (main_with cl p N))"
    by (auto simp: main_with_def)
  moreover from optimization_loop_feedback [of clp p "nat N" "[]" None]
  have "latest_feedback_only_pro p None (snd (run_optimization_loop clp p N))"
    by (auto simp: run_optimization_loop_def)
  ultimately show ?thesis
    by (simp add: report_request_def generate_request_def full_prompt_def final_prompt_def
        truthy_def)
qed


subsection \<open>What an exhausted loop returns\<close>

lemmas structured_loop_defs =
  run_optimization_loop_def optimization_loop.simps generate_def generate_once_def
  evaluate_def evaluate_once_def stop_after_attempt.simps Let_def numeral_2_eq_2

text \<open>
  C6 as stated fails for \<open>run_optimization_loop\<close>: two runs that are rejected on every
  cycle, with different last candidates and different last verdicts, both return
  \<open>None\<close>.
\<close>

theorem exhausted_structured_loop_returns_None:
  "fst (run_optimization_loop stubborn_pro ''p'' 2) = Inr None \<and>
   fst (run_optimization_loop other_stubborn_pro ''p'' 2) = Inr None \<and>
   drop 2 (snd (run_optimization_loop stubborn_pro ''p'' 2)) =
     [Created (generate_request ''p'' (Some ''hype'')) (Inr ''DeFi will double your money.''),
      Parsed (evaluate_request ''DeFi will double your money.'')
        (Inr (Some \<lparr>is_compliant = False, feedback = ''hype'', risk_score = 9\<rparr>))] \<and>
   drop 2 (snd (run_optimization_loop other_stubborn_pro ''p'' 2)) =
     [Created (generate_request ''p'' (Some ''alarmist'')) (Inr ''Banks are finished.''),
      Parsed (evaluate_request ''Banks are finished.'')
        (Inr (Some \<lparr>is_compliant = False, feedback = ''alarmist'', risk_score = 8\<rparr>))]"
  by (simp add: structured_loop_defs stubborn_pro_def other_stubborn_pro_def)

lemma evaluate_loop_refused_cycle:
  assumes "worker_agent agent i pr = Inr resp"
    and "cl (length w) (persona_request agent (eval_prompt agent resp)) = Inr content"
    and "\<not> startswith (lower (strip content)) ''yes''"
    and "cl (Suc (length w)) (persona_request agent (instruction_prompt (strip content))) = Inr ins"
  shows "evaluate_loop cl agent ip (Suc n) i w pr bound =
         evaluate_loop cl agent ip n (Suc i)
           (w @ [(persona_request agent (eval_prompt agent resp), Inr content),
                 (persona_request agent (instruction_prompt (strip content)), Inr ins)])
           (refinement_prompt ip resp (strip ins)) (Some (resp, strip content))"
  using assms by (simp add: chat_create_def Let_def)

lemma evaluate_loop_accepted_cycle:
  assumes "worker_agent agent i pr = Inr resp"
    and "cl (length w) (persona_request agent (eval_prompt agent resp)) = Inr content"
    and "startswith (lower (strip content)) ''yes''"
  shows "evaluate_loop cl agent ip (Suc n) i w pr bound =
         (Inr \<lparr>final_response = resp, evaluation = strip content, iterations = int i + 1\<rparr>,
          w @ [(persona_request agent (eval_prompt agent resp), Inr content)])"
  using assms by (simp add: chat_create_def Let_def)

declare evaluate_loop.simps(2) [simp del]

lemma evaluate_loop_refused_cycles:
  assumes "\<forall>k<j. worker_answers_at agent (i + k) \<and> says_no_at cl (length w + 2 * k) \<and>
                 answers_at cl (length w + 2 * k + 1)"
    and "j \<le> n"
  shows "\<exists>w' pr' bound'.
           evaluate_loop cl agent ip n i w pr bound =
             evaluate_loop cl agent ip (n - j) (i + j) w' pr' bound' \<and>
           length w' = length w + 2 * j \<and>
           (0 < j \<longrightarrow>
              (\<exists>resp content p0 w0 last_call.
                 bound' = Some (resp, strip content) \<and>
                 worker_agent agent (i + j - 1) p0 = Inr resp \<and>
                 w' = w0 @ [(persona_request agent (eval_prompt agent resp), Inr content),
                            last_call]))"
  using assms
proof (induction j)
  case 0
  have "evaluate_loop cl agent ip n i w pr bound =
          evaluate_loop cl agent ip (n - 0) (i + 0) w pr bound \<and>
        length w = length w + 2 * 0" by simp
  then show ?case by blast
next
  case (Suc j)
  from Suc.prems have "\<forall>k<j. worker_answers_at agent (i + k) \<and> says_no_at cl (length w + 2 * k) \<and>
                            answers_at cl (length w + 2 * k + 1)"
    and "j \<le> n" by simp_all
  from Suc.IH [OF this] obtain w' pr' bound' where st:
    "evaluate_loop cl agent ip n i w pr bound =
       evaluate_loop cl agent ip (n - j) (i + j) w' pr' bound'"
    "length w' = length w + 2 * j"
    by blast
  from Suc.prems(1) have wa: "worker_answers_at agent (i + j)"
    and no: "says_no_at cl (length w')" and a: "answers_at cl (Suc (length w'))"
    using st(2) by simp_all
  from wa obtain resp where resp: "worker_agent agent (i + j) pr' = Inr resp"
    unfolding worker_answers_at_def by blast
  let ?ereq = "persona_request agent (eval_prompt agent resp)"
  from no obtain content where content: "cl (length w') ?ereq = Inr content"
    "\<not> startswith (lower (strip content)) ''yes''"
    unfolding says_no_at_def by blast
  let ?ireq = "persona_request agent (instruction_prompt (strip content))"
  from a obtain ins where ins: "cl (Suc (length w')) ?ireq = Inr ins"
    unfolding answers_at_def by blast
  from Suc.prems(2) have left: "n - j = Suc (n - Suc j)" by simp
  let ?w'' = "w' @ [(?ereq, Inr content), (?ireq, Inr ins)]"
  have "evaluate_loop cl agent ip (Suc (n - Suc j)) (i + j) w' pr' bound' =
          evaluate_loop cl agent ip (n - Suc j) (Suc (i + j)) ?w''
            (refinement_prompt ip resp (strip ins)) (Some (resp, strip content))"
    by (rule evaluate_loop_refused_cycle [OF resp content ins])
  with st(1) left
  have "evaluate_loop cl agent ip n i w pr bound =
          evaluate_loop cl agent ip (n - Suc j) (i + Suc j) ?w''
            (refinement_prompt ip resp (strip ins)) (Some (resp, strip content))"
    by (simp only: add_Suc_right)
  moreover have "length ?w'' = length w + 2 * Suc j" using st(2) by simp
  moreover have "worker_agent agent (i + Suc j - 1) pr' = Inr resp" using resp by simp
  ultimately show ?case by blast
qed

lemma evaluate_never_accepted:
  assumes "never_accepts cl agent (nat (max_interactions agent))"
    and "0 < max_interactions agent"
  shows "\<exists>resp content p0 w'.
           EvaluationAgent_evaluate cl agent ip =
             (Inr \<lparr>final_response = resp, evaluation = strip content,
                   iterations = max_interactions agent\<rparr>, w') \<and>
           worker_agent agent (nat (max_interactions agent) - 1) p0 = Inr resp \<and>
           length w' = 2 * nat (max_interactions agent) \<and>
           w' ! (2 * nat (max_interactions agent) - 2) =
             (persona_request agent (eval_prompt agent resp), Inr content)"
proof -
  let ?n = "nat (max_interactions agent)"
  from assms(2) have pos: "0 < ?n" by simp
  from assms(1) have "\<forall>k<?n. worker_answers_at agent (0 + k) \<and>
                             says_no_at cl (length ([] :: transcript) + 2 * k) \<and>
                             answers_at cl (length ([] :: transcript) + 2 * k + 1)"
    by (simp add: never_accepts_def)
  from evaluate_loop_refused_cycles [OF this order_refl, of ip ip None] pos
  obtain w' pr' resp content p0 w0 last_call where st:
    "evaluate_loop cl agent ip ?n 0 [] ip None =
       evaluate_loop cl agent ip (?n - ?n) (0 + ?n) w' pr' (Some (resp, strip content))"
    "length w' = length ([] :: transcript) + 2 * ?n"
    "worker_agent agent (0 + ?n - 1) p0 = Inr resp"
    "w' = w0 @ [(persona_request agent (eval_prompt agent resp), Inr content), last_call]"
    by blast
  from st(1) have "EvaluationAgent_evaluate cl agent ip =
      (Inr \<lparr>final_response = resp, evaluation = strip content,
            iterations = max_interactions agent\<rparr>, w')"
    by (simp add: EvaluationAgent_evaluate_def)
  moreover from st(2,4) have "2 * ?n - 2 = length w0" by simp
  with st(4) have "w' ! (2 * ?n - 2) = (persona_request agent (eval_prompt agent resp), Inr content)"
    by simp
  ultimately show ?thesis using st(2,3) by auto
qed

lemma fussy_verdict:
  "\<not> startswith (lower (strip ''No, the answer is a sentence.'')) ''yes''"
  "\<not> startswith (lower ''No, the answer is a sentence.'') ''yes''"
  "strip ''No, the answer is a sentence.'' = ''No, the answer is a sentence.''"
  "strip ''  Answer with one word. '' = ''Answer with one word.''"
  by code_simp+

lemma fussy_client_never_accepts: "never_accepts fussy_client sample_agent n"
  by (simp add: never_accepts_def worker_answers_at_def says_no_at_def answers_at_def
      fussy_client_def sample_agent_def fussy_verdict)

lemma fussy_run:
  "fst (EvaluationAgent_evaluate fussy_client sample_agent ''Capital of France?'') =
     Inr \<lparr>final_response = ''It is Paris'', evaluation = ''No, the answer is a sentence.'',
          iterations = 2\<rparr> \<and>
   length (snd (EvaluationAgent_evaluate fussy_client sample_agent ''Capital of France?'')) = 4"
  by (simp add: EvaluationAgent_evaluate_def evaluate_loop.simps(2) chat_create_def Let_def
      fussy_client_def sample_agent_def fussy_verdict numeral_2_eq_2)

text \<open>
  C6, amended. When a loop uses up its iterations without approval:
  \<open>EvaluationAgent.evaluate\<close> (with \<open>max_interactions \<ge> 1\<close>) returns a dictionary with
  the last response of the worker, the last evaluation and \<open>iterations = max_interactions\<close>;
  \<open>main\<close> of \<open>demo.py\<close> ends by printing the last report; \<open>run_optimization_loop\<close> returns
  \<open>None\<close>.
\<close>

theorem exhausted_loop_outcomes:
  "(never_accepts cl agent (nat (max_interactions agent)) \<and> 0 < max_interactions agent \<longrightarrow>
      (\<exists>resp content p0.
         fst (EvaluationAgent_evaluate cl agent ip) =
           Inr \<lparr>final_response = resp, evaluation = strip content,
                iterations = max_interactions agent\<rparr> \<and>
         worker_agent agent (nat (max_interactions agent) - 1) p0 = Inr resp \<and>
         snd (EvaluationAgent_evaluate cl agent ip) ! (2 * nat (max_interactions agent) - 2) =
           (persona_request agent (eval_prompt agent resp), Inr content))) \<and>
   (always_rejects cl' (nat N) \<and> 0 < N \<longrightarrow>
      (\<exists>r w0 greq ereq c.
         main_with cl' p N =
           (Inr (Failed_after_max_retries r), w0 @ [(greq, Inr r), (ereq, Inr c)]))) \<and>
   (always_rejects_pro clp (nat N) \<longrightarrow> fst (run_optimization_loop clp p N) = Inr None)"
proof (intro conjI impI)
  assume "never_accepts cl agent (nat (max_interactions agent)) \<and> 0 < max_interactions agent"
  then have "never_accepts cl agent (nat (max_interactions agent))" "0 < max_interactions agent"
    by simp_all
  from evaluate_never_accepted [OF this, of ip]
  show "\<exists>resp content p0.
         fst (EvaluationAgent_evaluate cl agent ip) =
           Inr \<lparr>final_response = resp, evaluation = strip content,
                iterations = max_interactions agent\<rparr> \<and>
         worker_agent agent (nat (max_interactions agent) - 1) p0 = Inr resp \<and>
         snd (EvaluationAgent_evaluate cl agent ip) ! (2 * nat (max_interactions agent) - 2) =
           (persona_request agent (eval_prompt agent resp), Inr content)"
    by fastforce
next
  assume "always_rejects cl' (nat N) \<and> 0 < N"
  then have rej: "always_rejects cl' (nat N)" and pos: "0 < nat N" by simp_all
  from main_all_rejected [OF rej, of p] pos
  show "\<exists>r w0 greq ereq c.
         main_with cl' p N =
           (Inr (Failed_after_max_retries r), w0 @ [(greq, Inr r), (ereq, Inr c)])"
    unfolding main_with_def by blast
next
  assume "always_rejects_pro clp (nat N)"
  from optimization_all_rejected [OF this, of p]
  show "fst (run_optimization_loop clp p N) = Inr None"
    by (auto simp: run_optimization_loop_def)
qed

theorem exhausted_loop_outcomes_witness:
  "never_accepts fussy_client sample_agent (nat (max_interactions sample_agent)) \<and>
   0 < max_interactions sample_agent \<and>
   (\<exists>resp content.
      fst (EvaluationAgent_evaluate fussy_client sample_agent ''Capital of France?'') =
        Inr \<lparr>final_response = resp, evaluation = strip content,
             iterations = max_interactions sample_agent\<rparr>) \<and>
   always_rejects stubborn_client (nat MAX_RETRIES) \<and> 0 < MAX_RETRIES \<and>
   (\<exists>r. fst (main_with stubborn_client user_prompt MAX_RETRIES) =
           Inr (Failed_after_max_retries r)) \<and>
   always_rejects_pro stubborn_pro (nat MAX_RETRIES) \<and>
   fst (run_optimization_loop stubborn_pro user_prompt MAX_RETRIES) = Inr None"
proof -
  have pos: "0 < max_interactions sample_agent" "0 < MAX_RETRIES"
    by (simp_all add: sample_agent_def MAX_RETRIES_def)
  note na = fussy_client_never_accepts [of "nat (max_interactions sample_agent)"]
  note rej = stubborn_client_rejects [of "nat MAX_RETRIES"]
  note rejp = stubborn_pro_rejects [of "nat MAX_RETRIES"]
  note inst = exhausted_loop_outcomes
    [where cl = fussy_client and agent = sample_agent and ip = "''Capital of France?''"
       and cl' = stubborn_client and N = MAX_RETRIES and p = user_prompt
       and clp = stubborn_pro]
  from inst na pos(1)
  have 1: "\<exists>resp content.
      fst (EvaluationAgent_evaluate fussy_client sample_agent ''Capital of France?'') =
        Inr \<lparr>final_response = resp, evaluation = strip content,
             iterations = max_interactions sample_agent\<rparr>"
    by blast
  from inst rej pos(2)
  have 2: "\<exists>r. fst (main_with stubborn_client user_prompt MAX_RETRIES) =
                 Inr (Failed_after_max_retries r)"
    by fastforce
  from inst rejp
  have 3: "fst (run_optimization_loop stubborn_pro user_prompt MAX_RETRIES) = Inr None"
    by blast
  from na pos rej rejp 1 2 3 show ?thesis by blast
qed


subsection \<open>The approval test\<close>

lemma startswith_prefix: "startswith s tok \<longleftrightarrow> prefix tok s"
proof
  assume "startswith s tok"
  then have "take (length tok) s = tok" by (simp add: startswith_def)
  then show "prefix tok s" by (metis take_is_prefix)
next
  assume "prefix tok s"
  then obtain zs where "s = tok @ zs" by (auto simp: prefix_def)
  then show "startswith s tok" by (simp add: startswith_def)
qed

lemma dropWhile_keeps:
  "t \<noteq> [] \<Longrightarrow> \<not> P (hd t) \<Longrightarrow> dropWhile P (t @ rest) = t @ rest"
  by (cases t) simp_all

lemma dropWhile_append_suffix:
  "t \<noteq> [] \<Longrightarrow> \<not> P (hd t) \<Longrightarrow> \<exists>zs. dropWhile P (xs @ t) = zs @ t"
proof (induction xs)
  case Nil
  then show ?case by (cases t) auto
next
  case (Cons x xs)
  then show ?case by (cases "P x") (auto intro: exI [of _ "x # xs"])
qed

lemma strip_keeps_core:
  assumes "t \<noteq> []" and "\<not> py_isspace (hd t)" and "\<not> py_isspace (last t)"
  shows "prefix t (strip (t @ rest))"
proof -
  from assms have "rev t \<noteq> []" "\<not> py_isspace (hd (rev t))" by (simp_all add: hd_rev)
  from dropWhile_append_suffix [of "rev t" py_isspace "rev rest", OF this]
  obtain zs where "dropWhile py_isspace (rev rest @ rev t) = zs @ rev t" by blast
  with assms(1,2) have "strip (t @ rest) = t @ rev zs"
    by (simp add: strip_def dropWhile_keeps)
  then show ?thesis by simp
qed

lemma lower_prefix: "prefix t s \<Longrightarrow> prefix (lower t) (lower s)"
  by (auto simp: prefix_def lower_def)

lemma token_facts:
  "lower ''Approved'' = ''approved''" "lower ''APPROVED'' = ''approved''"
  "lower ''Yes'' = ''yes''"
  "\<not> py_isspace (CHR ''A'')" "\<not> py_isspace (CHR ''d'')" "\<not> py_isspace (CHR ''D'')"
  "\<not> py_isspace (CHR ''Y'')" "\<not> py_isspace (CHR ''s'')"
  "\<not> prefix ''approved'' (lower (strip ''Not approved''))"
  "\<not> prefix ''yes'' (lower (strip ''No. Yes would be wrong.''))"
  by code_simp+

text \<open>
  C10. The approval of a candidate is the prefix test on the stripped, lower-cased reply
  of the evaluator and nothing else: a one-cycle run of the compliance loop prints the
  approved summary exactly when the reply starts with \<open>approved\<close>, and a one-cycle run
  of \<open>EvaluationAgent.evaluate\<close> goes on to ask for corrections (a second call) exactly
  when the reply does not start with \<open>yes\<close>. \<open>Not approved\<close> is a rejection; a reply
  that begins with the token is an approval whatever follows.
\<close>

theorem approval_is_a_prefix_test:
  "fst (main_loop (scripted [Inr g, Inr e]) p (Suc 0) [] r fb) =
     Inr (if prefix ''approved'' (lower (strip e)) then Final_Approved g
          else Failed_after_max_retries g) \<and>
   EvaluationAgent_evaluate (scripted [Inr e, Inr ins])
       (agent\<lparr>worker_agent := (\<lambda>i q. Inr resp), max_interactions := 1\<rparr>) ip =
     (Inr \<lparr>final_response = resp, evaluation = strip e, iterations = 1\<rparr>,
      if prefix ''yes'' (lower (strip e))
      then [(persona_request agent (eval_prompt agent resp), Inr e)]
      else [(persona_request agent (eval_prompt agent resp), Inr e),
            (persona_request agent (instruction_prompt (strip e)), Inr ins)]) \<and>
   \<not> prefix ''approved'' (lower (strip ''Not approved'')) \<and>
   \<not> prefix ''yes'' (lower (strip ''No. Yes would be wrong.'')) \<and>
   prefix ''approved'' (lower (strip (''Approved'' @ rest))) \<and>
   prefix ''approved'' (lower (strip (''APPROVED'' @ rest))) \<and>
   prefix ''yes'' (lower (strip (''Yes'' @ rest)))"
proof -
  have 1: "fst (main_loop (scripted [Inr g, Inr e]) p (Suc 0) [] r fb) =
     Inr (if prefix ''approved'' (lower (strip e)) then Final_Approved g
          else Failed_after_max_retries g)"
    by (simp add: main_loop.simps(2) FinancialReportAgent_run_def ComplianceAgent_run_def
        chat_create_def scripted_def Let_def startswith_prefix)
  have 2: "EvaluationAgent_evaluate (scripted [Inr e, Inr ins])
       (agent\<lparr>worker_agent := (\<lambda>i q. Inr resp), max_interactions := 1\<rparr>) ip =
     (Inr \<lparr>final_response = resp, evaluation = strip e, iterations = 1\<rparr>,
      if prefix ''yes'' (lower (strip e))
      then [(persona_request agent (eval_prompt agent resp), Inr e)]
      else [(persona_request agent (eval_prompt agent resp), Inr e),
            (persona_request agent (instruction_prompt (strip e)), Inr ins)])"
    by (simp add: EvaluationAgent_evaluate_def evaluate_loop.simps(2) chat_create_def
        scripted_def Let_def startswith_prefix persona_request_def eval_prompt_def)
  have 3: "prefix ''approved'' (lower (strip (''Approved'' @ rest)))"
    using lower_prefix [OF strip_keeps_core [of "''Approved''" rest]]
    by (simp add: token_facts)
  have 4: "prefix ''approved'' (lower (strip (''APPROVED'' @ rest)))"
    using lower_prefix [OF strip_keeps_core [of "''APPROVED''" rest]]
    by (simp add: token_facts)
  have 5: "prefix ''yes'' (lower (strip (''Yes'' @ rest)))"
    using lower_prefix [OF strip_keeps_core [of "''Yes''" rest]]
    by (simp add: token_facts)
  from 1 2 3 4 5 token_facts(9,10) show ?thesis by blast
qed

section \<open>Properties of the parallel fan-out\<close>

lemma sublist_here: "sublist x (x @ ss)"
  by (rule sublist_append_rightI)

lemma sublist_skip: "sublist x ys \<Longrightarrow> sublist x (a @ ys)"
  by (auto simp: sublist_def) (metis append.assoc)

lemma summary_user_prompt_contains:
  "sublist l (summary_user_prompt text l c f)"
  "sublist c (summary_user_prompt text l c f)"
  "sublist f (summary_user_prompt text l c f)"
  unfolding summary_user_prompt_def
  by (intro sublist_here sublist_skip)+

lemma fan_out_keys:
  "dict_get (fan_out lo co fo) ''legal'' d = result_or lo d"
  "dict_get (fan_out lo co fo) ''compliance'' d = result_or co d"
  "dict_get (fan_out lo co fo) ''financial'' d = result_or fo d"
  by (simp_all add: fan_out_def store_def dict_get_def result_or_def split: sum.splits)



lemma one_specialist_fails:
  "sublist ''No legal analysis provided.''
     (snd (messages (fst (hd (snd (analyze_contract cl (Inl (APIError ''timeout''))
        (Inr ''GDPR clause missing'') (Inr ''late fees are high'') text)))) ! 1)) \<and>
   sublist ''GDPR clause missing''
     (snd (messages (fst (hd (snd (analyze_contract cl (Inl (APIError ''timeout''))
        (Inr ''GDPR clause missing'') (Inr ''late fees are high'') text)))) ! 1)) \<and>
   sublist ''late fees are high''
     (snd (messages (fst (hd (snd (analyze_contract cl (Inl (APIError ''timeout''))
        (Inr ''GDPR clause missing'') (Inr ''late fees are high'') text)))) ! 1))"
  by (simp add: SummaryAgent_run_def analyze_contract_def chat_create_def Let_def
      summary_request_def fan_out_keys result_or_def summary_user_prompt_contains)

end
